theory Spec2Isabelle
  imports Main "HOL-Library.Sublist" "HOL-Library.Log_Nat"
begin

section \<open>Values read from the puzzle JSON\<close>

text \<open>
  A tile is a Python \<open>dict\<close> produced by \<open>json.load\<close>. A key of interest is either
  absent, present with \<open>null\<close> (Python \<open>None\<close>), or present with a value of the type the
  data model gives it. \<open>tile.get(k)\<close> maps the first two cases to \<open>None\<close>, while
  \<open>tile.get(k, default)\<close> returns the default only for an absent key.
\<close>

datatype 'a field = Absent | Null | Val 'a

text \<open>
  A JSON number is an \<open>int\<close> or a finite \<open>float\<close>. The float \<open>PFloat m e\<close> is the
  binary64 value \<open>m / 2 ^ e\<close>, held exactly (every finite double has this form).
\<close>

datatype pynum = PInt int | PFloat int nat

type_synonym pyfloat = "int \<times> nat"

datatype pyerror =
    ValueError | TypeError | AttributeError | OverflowError
  | UnboundLocalError | PlaywrightError | ReprOutsideModel

record extra_obj =
  extra_panoId :: "string field"
  extra_panoDate :: "string field"

record tile =
  panoId :: "string field"
  heading :: "pynum field"
  pitch :: "pynum field"
  zoom :: "pynum field"
  extra :: "extra_obj field"

section \<open>Python built-ins used by the filename codec\<close>

definition digit_char :: "nat \<Rightarrow> char" where
  "digit_char d = ''0123456789'' ! d"

fun str_nat :: "nat \<Rightarrow> string" where
  "str_nat n = (if n < 10 then [digit_char n] else str_nat (n div 10) @ [digit_char (n mod 10)])"

declare str_nat.simps [simp del]

text \<open>\<open>str(i)\<close> for a Python \<open>int\<close>.\<close>

definition str_int :: "int \<Rightarrow> string" where
  "str_int i = (if i < 0 then CHR ''-'' # str_nat (nat (- i)) else str_nat (nat i))"

text \<open>
  \<open>float(n)\<close> for an \<open>int\<close>: exact up to 53 bits, otherwise rounded to 53 significant
  bits (ties to even), \<open>OverflowError\<close> beyond the binary64 range.
\<close>

definition float_of_int :: "int \<Rightarrow> pyerror + pyfloat" where
  "float_of_int n =
     (let a = \<bar>n\<bar> in
      if a < 2 ^ 53 then Inr (n, 0)
      else
        let sh = nat (bitlen a - 53);
            q = a div 2 ^ sh;
            r = a mod 2 ^ sh;
            q' = (if 2 * r > 2 ^ sh \<or> (2 * r = 2 ^ sh \<and> odd q) then q + 1 else q);
            v = q' * 2 ^ sh
        in if v \<ge> 2 ^ 1024 then Inl OverflowError else Inr (sgn n * v, 0))"

text \<open>\<open>float(num)\<close> on a JSON number.\<close>

fun py_float :: "pynum \<Rightarrow> pyerror + pyfloat" where
  "py_float (PInt n) = float_of_int n"
| "py_float (PFloat m e) = Inr (m, e)"

text \<open>The integer nearest to \<open>a / b\<close> for \<open>b > 0\<close>, ties going to the even neighbour.\<close>

definition round_half_even :: "int \<Rightarrow> int \<Rightarrow> int" where
  "round_half_even a b =
     (let q = a div b; r = a mod b in
      if 2 * r < b then q
      else if 2 * r > b then q + 1
      else if even q then q else q + 1)"

text \<open>
  \<open>round(x, 2)\<close>: CPython rounds the exact binary value of \<open>x\<close> to two decimals, ties to
  even, and returns the double nearest to that decimal. The result is held here as the
  number of hundredths \<open>k\<close>, standing for the double nearest to \<open>k / 100\<close>.
\<close>

definition py_round2 :: "pyfloat \<Rightarrow> int" where
  "py_round2 x = (case x of (m, e) \<Rightarrow> round_half_even (100 * m) (2 ^ e))"

text \<open>\<open>int(rounded)\<close> truncates towards zero.\<close>

definition int_of_rounded :: "int \<Rightarrow> int" where
  "int_of_rounded k = (if 0 \<le> k then k div 100 else - ((- k) div 100))"

text \<open>
  \<open>str(rounded)\<close> for a float: the shortest decimal string that reads back as the same
  double. For the double nearest to \<open>k / 100\<close> with \<open>\<bar>k\<bar> < 10 ^ 15\<close> (at most 15
  significant digits) that string is the decimal expansion of \<open>k / 100\<close> itself, with one
  decimal place when the second is zero. Larger magnitudes are outside what is modelled.
\<close>

definition str_rounded :: "int \<Rightarrow> pyerror + string" where
  "str_rounded k =
     (if \<bar>k\<bar> < 10 ^ 15 then
        let a = nat \<bar>k\<bar>; frac = a mod 100 in
        Inr ((if k < 0 then ''-'' else '''') @ str_nat (a div 100) @ ''.'' @
             [digit_char (frac div 10)] @
             (if frac mod 10 = 0 then '''' else [digit_char (frac mod 10)]))
      else Inl ReprOutsideModel)"

section \<open>The numeric formatter\<close>

text \<open>
  \<^verbatim>\<open>
  def round_number(num, decimals=2):
      rounded = round(float(num), decimals)
      if rounded == int(rounded):
          return str(int(rounded))
      return str(rounded)
  \<close>
\<close>

definition round_number :: "pynum \<Rightarrow> pyerror + string" where
  "round_number num =
     (case py_float num of
        Inl err \<Rightarrow> Inl err
      | Inr x \<Rightarrow>
          let rounded = py_round2 x in
          if rounded = 100 * int_of_rounded rounded then Inr (str_int (int_of_rounded rounded))
          else str_rounded rounded)"

section \<open>The filename codec\<close>

text \<open>Truthiness of \<open>d.get(k)\<close> for a string-valued key: \<open>None\<close> and \<open>''\<close> are falsy.\<close>

fun truthy_str :: "string field \<Rightarrow> string option" where
  "truthy_str (Val s) = (if s = [] then None else Some s)"
| "truthy_str _ = None"

definition empty_dict :: extra_obj where
  "empty_dict = \<lparr>extra_panoId = Absent, extra_panoDate = Absent\<rparr>"

text \<open>
  \<open>tile.get('extra', {})\<close> followed by a \<open>.get\<close> on the result: the default \<open>{}\<close> is used
  only for an absent key; on \<open>None\<close> the attribute access raises.
\<close>

fun get_extra :: "tile \<Rightarrow> pyerror + extra_obj" where
  "get_extra t =
     (case extra t of
        Absent \<Rightarrow> Inr empty_dict
      | Null \<Rightarrow> Inl AttributeError
      | Val ex \<Rightarrow> Inr ex)"

text \<open>
  \<open>pano_id = tile.get('panoId') or tile.get('extra', {}).get('panoId')\<close>, the result read
  through \<open>if not pano_id\<close>: \<open>None\<close> here stands for any falsy outcome.
\<close>

definition get_pano_id :: "tile \<Rightarrow> pyerror + string option" where
  "get_pano_id t =
     (case truthy_str (panoId t) of
        Some s \<Rightarrow> Inr (Some s)
      | None \<Rightarrow>
          (case get_extra t of
             Inl err \<Rightarrow> Inl err
           | Inr ex \<Rightarrow> Inr (truthy_str (extra_panoId ex))))"

text \<open>
  \<open>date = tile.get('extra', {}).get('panoDate', '2024-01')\<close>, then
  \<open>if not date: date = '2024-01'\<close>.
\<close>

definition get_date :: "tile \<Rightarrow> pyerror + string" where
  "get_date t =
     (case get_extra t of
        Inl err \<Rightarrow> Inl err
      | Inr ex \<Rightarrow>
          (case extra_panoDate ex of
             Absent \<Rightarrow> Inr ''2024-01''
           | f \<Rightarrow> (case truthy_str f of None \<Rightarrow> Inr ''2024-01'' | Some d \<Rightarrow> Inr d)))"

text \<open>\<open>round_number(tile.get(k, 0))\<close>: \<open>float(None)\<close> raises \<open>TypeError\<close>.\<close>

fun round_field :: "pynum field \<Rightarrow> pyerror + string" where
  "round_field Absent = round_number (PInt 0)"
| "round_field Null = Inl TypeError"
| "round_field (Val n) = round_number n"

text \<open>\<open>int(num)\<close> on a JSON number truncates a float towards zero.\<close>

fun py_int :: "pynum \<Rightarrow> int" where
  "py_int (PInt n) = n"
| "py_int (PFloat m e) = (if 0 \<le> m then m div 2 ^ e else - ((- m) div 2 ^ e))"

fun int_field :: "pynum field \<Rightarrow> pyerror + int" where
  "int_field Absent = Inr 0"
| "int_field Null = Inl TypeError"
| "int_field (Val n) = Inr (py_int n)"

text \<open>The f-string \<open>{pano_id}~d{date}~h{heading}~p{pitch}~z{zoom}.jpg\<close>.\<close>

definition asset_name :: "string \<Rightarrow> string \<Rightarrow> string \<Rightarrow> string \<Rightarrow> int \<Rightarrow> string" where
  "asset_name pano_id date h p z =
     pano_id @ ''~d'' @ date @ ''~h'' @ h @ ''~p'' @ p @ ''~z'' @ str_int z @ ''.jpg''"

text \<open>
  \<^verbatim>\<open>
  def create_new_filename(tile):
      pano_id = tile.get('panoId') or tile.get('extra', {}).get('panoId')
      if not pano_id:
          raise ValueError("No panoId found in tile data")
      date = tile.get('extra', {}).get('panoDate', '2024-01')
      if not date:
          date = '2024-01'
      heading = round_number(tile.get('heading', 0))
      pitch = round_number(tile.get('pitch', 0))
      zoom = int(tile.get('zoom', 0))
      return f"{pano_id}~d{date}~h{heading}~p{pitch}~z{zoom}.jpg"
  \<close>
  The function is the same in both variants of the downloader.
\<close>

definition create_new_filename :: "tile \<Rightarrow> pyerror + string" where
  "create_new_filename t =
     (case get_pano_id t of
        Inl err \<Rightarrow> Inl err
      | Inr None \<Rightarrow> Inl ValueError
      | Inr (Some pano_id) \<Rightarrow>
     (case get_date t of
        Inl err \<Rightarrow> Inl err
      | Inr date \<Rightarrow>
     (case round_field (heading t) of
        Inl err \<Rightarrow> Inl err
      | Inr h \<Rightarrow>
     (case round_field (pitch t) of
        Inl err \<Rightarrow> Inl err
      | Inr p \<Rightarrow>
     (case int_field (zoom t) of
        Inl err \<Rightarrow> Inl err
      | Inr z \<Rightarrow> Inr (asset_name pano_id date h p z))))))"

text \<open>
  The identifier check that \<open>process_json_file_async\<close> makes before it calls the codec:
  \<^verbatim>\<open>
  pano_id = None
  if "panoId" in tile and tile["panoId"] is not None and tile["panoId"]:
      pano_id = tile["panoId"]
  elif "extra" in tile and isinstance(tile["extra"], dict) and "panoId" in tile["extra"] \
          and tile["extra"]["panoId"] is not None and tile["extra"]["panoId"]:
      pano_id = tile["extra"]["panoId"]
  \<close>
\<close>

definition checked_pano_id :: "tile \<Rightarrow> string option" where
  "checked_pano_id t =
     (case truthy_str (panoId t) of
        Some s \<Rightarrow> Some s
      | None \<Rightarrow> (case extra t of Val ex \<Rightarrow> truthy_str (extra_panoId ex) | _ \<Rightarrow> None))"

section \<open>What the specification says about names\<close>

text \<open>
  The specification's reading of a tile record: numeric fields default to 0, the capture
  date is \<open>extra.panoDate\<close> with the fixed fallback \<open>2024-01\<close>.
\<close>

fun field_num :: "pynum field \<Rightarrow> pynum" where
  "field_num (Val n) = n"
| "field_num _ = PInt 0"

definition spec_date :: "tile \<Rightarrow> string" where
  "spec_date t =
     (case extra t of
        Val ex \<Rightarrow> (case truthy_str (extra_panoDate ex) of Some d \<Rightarrow> d | None \<Rightarrow> ''2024-01'')
      | _ \<Rightarrow> ''2024-01'')"

text \<open>
  \<open>nearest_hundredths num k\<close>: \<open>k / 100\<close> is a two-decimal value nearest to \<open>num\<close>, that
  is \<open>\<bar>100 * num - k\<bar> \<le> 1 / 2\<close>, written over the integers for a float \<open>m / 2 ^ e\<close>.
\<close>

definition nearest_hundredths :: "pynum \<Rightarrow> int \<Rightarrow> bool" where
  "nearest_hundredths num k =
     (case num of
        PInt n \<Rightarrow> k = 100 * n
      | PFloat m e \<Rightarrow> \<bar>2 * (100 * m) - 2 * 2 ^ e * k\<bar> \<le> 2 ^ e)"

text \<open>
  The specification's formatting of a two-decimal value \<open>k / 100\<close>: written with two
  decimals, then trailing zeros and a trailing dot stripped, which leaves the integer
  string for a whole number and the shortest decimal representation otherwise.
\<close>

definition fixed2 :: "int \<Rightarrow> string" where
  "fixed2 k =
     (let a = nat \<bar>k\<bar>; frac = a mod 100 in
      (if k < 0 then ''-'' else '''') @ str_nat (a div 100) @ ''.'' @
      [digit_char (frac div 10), digit_char (frac mod 10)])"

definition rstrip :: "char \<Rightarrow> string \<Rightarrow> string" where
  "rstrip c s = rev (dropWhile (\<lambda>x. x = c) (rev s))"

definition spec_format :: "int \<Rightarrow> string" where
  "spec_format k = rstrip CHR ''.'' (rstrip CHR ''0'' (fixed2 k))"

text \<open>
  The numbers on which the model of \<open>float\<close>, \<open>round\<close> and \<open>str\<close> above is exact: integers
  that a double holds exactly, and floats of magnitude below \<open>10 ^ 13\<close>.
\<close>

definition in_model_range :: "pynum \<Rightarrow> bool" where
  "in_model_range num =
     (case num of PInt n \<Rightarrow> \<bar>n\<bar> < 2 ^ 53 | PFloat m e \<Rightarrow> \<bar>m\<bar> < 10 ^ 13 * 2 ^ e)"

text \<open>
  A well-formed tile record: \<open>extra\<close>, when present, is an object, and the numeric fields,
  when present, hold numbers (in the modelled range for heading and pitch).
\<close>

fun wf_num_field :: "pynum field \<Rightarrow> bool" where
  "wf_num_field Absent = True"
| "wf_num_field Null = False"
| "wf_num_field (Val n) = in_model_range n"

definition wf_tile :: "tile \<Rightarrow> bool" where
  "wf_tile t =
     (extra t \<noteq> Null \<and> wf_num_field (heading t) \<and> wf_num_field (pitch t) \<and> zoom t \<noteq> Null)"

definition example_tile :: tile where
  "example_tile =
     \<lparr>panoId = Val ''ABC123'', heading = Val (PInt 90), pitch = Val (PInt 0),
      zoom = Val (PInt 1),
      extra = Val \<lparr>extra_panoId = Absent, extra_panoDate = Val ''2023-05''\<rparr>\<rparr>"

section \<open>Thumbnail names\<close>

text \<open>
  \<open>s.replace(old, new)\<close>: every non-overlapping occurrence of \<open>old\<close>, scanning from the
  left, is replaced; an empty \<open>old\<close> matches before every character and at the end.
\<close>

function py_replace :: "string \<Rightarrow> string \<Rightarrow> string \<Rightarrow> string" where
  "py_replace old new s =
     (if old = [] then new @ concat (map (\<lambda>c. c # new) s)
      else if s = [] then []
      else if prefix old s then new @ py_replace old new (drop (length old) s)
      else hd s # py_replace old new (tl s))"
  by pat_completeness auto
termination
  by (relation "measure (\<lambda>(old, new, s). length s)") auto

declare py_replace.simps [simp del]

text \<open>
  Every place that derives the thumbnail name does it the same way, in both variants:
  \<open>thumb_filename = base_filename.replace('.jpg', '~thumb.jpg')\<close>.
\<close>

definition thumb_filename :: "string \<Rightarrow> string" where
  "thumb_filename base_filename = py_replace ''.jpg'' ''~thumb.jpg'' base_filename"

text \<open>
  The specification's thumbnail name: the full name with \<open>~thumb\<close> inserted immediately
  before its four-character extension.
\<close>

definition spec_thumb_name :: "string \<Rightarrow> string" where
  "spec_thumb_name full = take (length full - 4) full @ ''~thumb.jpg''"

definition jpg_tile :: tile where
  "jpg_tile =
     \<lparr>panoId = Val ''a.jpg'', heading = Absent, pitch = Absent, zoom = Absent, extra = Absent\<rparr>"

text \<open>The characters that \<open>round_number\<close> and \<open>str\<close> of an integer can emit.\<close>

definition num_chars :: "char set" where
  "num_chars = set ''-.0123456789''"

section \<open>Reconciliation\<close>

text \<open>
  \<open>dry_run\<close> and \<open>prune_orphaned_images\<close> build the expected-file set with the same loop.
  A puzzle file is given by the tiles read from it; a file that cannot be read or has an
  unknown structure contributes the empty list.
  \<^verbatim>\<open>
  expected_files = set()
  for json_file in json_files:
      try:
          ...
          for tile in tiles:
              pano_id = tile.get('panoId') or tile.get('extra', {}).get('panoId')
              if not pano_id:
                  continue
              try:
                  expected_filename = create_new_filename(tile)
                  expected_files.add(expected_filename)
                  expected_files.add(expected_filename.replace('.jpg', '~thumb.jpg'))
              except Exception as e:
                  print(...)
      except Exception as e:
          print(...)
  \<close>
  An exception raised by the first line of the inner loop leaves the loop over the tiles
  of that file.
\<close>

fun expected_of_tiles :: "tile list \<Rightarrow> string set \<Rightarrow> string set" where
  "expected_of_tiles [] expected_files = expected_files"
| "expected_of_tiles (t # ts) expected_files =
     (case get_pano_id t of
        Inl err \<Rightarrow> expected_files
      | Inr None \<Rightarrow> expected_of_tiles ts expected_files
      | Inr (Some pano_id) \<Rightarrow>
          (case create_new_filename t of
             Inl err \<Rightarrow> expected_of_tiles ts expected_files
           | Inr expected_filename \<Rightarrow>
               expected_of_tiles ts
                 (insert (thumb_filename expected_filename)
                    (insert expected_filename expected_files))))"

fun expected_of_files :: "tile list list \<Rightarrow> string set \<Rightarrow> string set" where
  "expected_of_files [] expected_files = expected_files"
| "expected_of_files (tiles # json_files) expected_files =
     expected_of_files json_files (expected_of_tiles tiles expected_files)"

text \<open>
  Both functions first list the puzzle files and return at once when there is none:
  \<^verbatim>\<open>
  json_files = list(puzzles_dir.glob("*.json"))
  if not json_files:
      print("No *.json files found in ui/public/puzzles directory")
      return
  \<close>
  \<open>None\<close> stands for that early return: nothing is computed, reported or deleted.
  Otherwise \<open>dry_run\<close> goes on with
  \<^verbatim>\<open>
  actual_files = set(f.name for f in img_dir.glob("*.jpg"))
  missing_files = expected_files - actual_files
  orphaned_files = actual_files - expected_files
  \<close>
\<close>

definition dry_run ::
  "tile list list \<Rightarrow> string set \<Rightarrow> (string set \<times> string set) option"
where
  "dry_run json_files actual_files =
     (if json_files = [] then None
      else
        let expected_files = expected_of_files json_files {};
            missing_files = expected_files - actual_files;
            orphaned_files = actual_files - expected_files
        in Some (missing_files, orphaned_files))"

text \<open>
  and \<open>prune_orphaned_images\<close> with
  \<^verbatim>\<open>
  actual_files = set(f.name for f in img_dir.glob("*.jpg"))
  orphaned_files = []
  for filename in actual_files:
      if filename not in expected_files:
          orphaned_files.append(img_dir / filename)
  \<close>
  The result is the set of orphaned names that the function then reports and, once
  confirmed or forced, deletes.
\<close>

definition prune_orphaned_images :: "tile list list \<Rightarrow> string set \<Rightarrow> string set option" where
  "prune_orphaned_images json_files actual_files =
     (if json_files = [] then None
      else
        let expected_files = expected_of_files json_files {}
        in Some {filename \<in> actual_files. filename \<notin> expected_files})"

section \<open>The world outside the program\<close>

text \<open>
  What the network, the browser and the storage do is not decided by the program. For one
  tile it is given by an \<open>env\<close>: the answer of \<open>requests.get\<close> for each URL, and for every
  other external step whether it completes or raises. \<open>direct_store_ok\<close> covers storing the
  directly fetched image and its thumbnail, \<open>capture_ok\<close> the screenshot, the brightness
  check and storing the screenshot and its thumbnail, \<open>thumb_from_full_ok\<close> regenerating a
  thumbnail from a full image on disk. In the object-storage variant \<open>upload_to_r2\<close>
  swallows a \<open>ClientError\<close> and its result is ignored, so there a failed upload counts as
  a step that completes.
\<close>

datatype http_outcome = HttpRaises | HttpResponse int string string

datatype query_outcome = QueryRaises | NoElement | Element

record env =
  http_get :: "string \<Rightarrow> http_outcome"
  direct_store_ok :: bool
  new_page_ok :: bool
  set_viewport_ok :: bool
  goto_ok :: bool
  wait_for_selector_ok :: bool
  wait_for_function_ok :: bool
  query_selector :: query_outcome
  capture_ok :: bool
  page_close_ok :: bool
  thumb_from_full_ok :: bool

text \<open>
  What a run does to the outside is recorded as a list of events: each HTTP request of
  the direct tier, each browser taken from and given back to the pool, and the progress
  line \<open>[i/n] Processing tile...\<close> printed before each download.
\<close>

datatype event =
    is_DirectRequest: DirectRequest string
  | is_GetBrowser: GetBrowser nat
  | is_ReturnBrowser: ReturnBrowser nat
  | is_Processing: Processing nat nat

text \<open>
  A coroutine returns a value, raises, or never resumes: the program runs a single task,
  so an \<open>await\<close> on an empty queue is never completed by anyone.
\<close>

datatype 'a outcome = Returns 'a | Raises pyerror | Blocks

section \<open>The direct tier\<close>

text \<open>
  \<^verbatim>\<open>
  def try_direct_download(pano_id, heading=0, pitch=0, zoom=0, date="2024-01"):
      test_urls = [
          f"https://geonections.com/pano/img/{pano_id}~d{date}~h{heading}~p{pitch}~z{zoom}.jpg",
      ]
      for url in test_urls:
          try:
              response = requests.get(url, timeout=10)
              if response.status_code == 200:
                  content_type = response.headers.get('content-type', '')
                  if 'image' in content_type:
                      return url, response.content
          except Exception as e:
              print(...)
      return None, None
  \<close>
\<close>

fun try_urls :: "env \<Rightarrow> string list \<Rightarrow> (string \<times> string) option \<times> event list" where
  "try_urls w [] = (None, [])"
| "try_urls w (url # test_urls) =
     (case http_get w url of
        HttpResponse status_code content_type content \<Rightarrow>
          if status_code = 200 \<and> sublist ''image'' content_type
          then (Some (url, content), [DirectRequest url])
          else (case try_urls w test_urls of (r, ev) \<Rightarrow> (r, DirectRequest url # ev))
      | HttpRaises \<Rightarrow>
          (case try_urls w test_urls of (r, ev) \<Rightarrow> (r, DirectRequest url # ev)))"

definition try_direct_download ::
  "env \<Rightarrow> string \<Rightarrow> string \<Rightarrow> string \<Rightarrow> int \<Rightarrow> string \<Rightarrow> (string \<times> string) option \<times> event list"
where
  "try_direct_download w pano_id h p z date =
     try_urls w [''https://geonections.com/pano/img/'' @ asset_name pano_id date h p z]"

text \<open>
  \<^verbatim>\<open>
  async def download_pano_image_direct(tile, output_dir):
      pano_id = tile.get('panoId') or tile.get('extra', {}).get('panoId')
      if not pano_id:
          return None
      heading = round_number(tile.get('heading', 0))
      pitch = round_number(tile.get('pitch', 0))
      zoom = int(tile.get('zoom', 0))
      date = tile.get('extra', {}).get('panoDate', '2024-01')
      if not date:
          date = '2024-01'
      url, content = try_direct_download(pano_id, heading, pitch, zoom, date)
      if url and content:
          try:
              base_filename = create_new_filename(tile)
              full_filename = base_filename
              thumb_filename = base_filename.replace('.jpg', '~thumb.jpg')
              ...store the image and its thumbnail...
              return [full_filename, thumb_filename]
          except Exception as e:
              return None
      return None
  \<close>
\<close>

definition download_pano_image_direct ::
  "env \<Rightarrow> tile \<Rightarrow> (pyerror + string list option) \<times> event list"
where
  "download_pano_image_direct w t =
     (case get_pano_id t of
        Inl err \<Rightarrow> (Inl err, [])
      | Inr None \<Rightarrow> (Inr None, [])
      | Inr (Some pano_id) \<Rightarrow>
     (case round_field (heading t) of
        Inl err \<Rightarrow> (Inl err, [])
      | Inr h \<Rightarrow>
     (case round_field (pitch t) of
        Inl err \<Rightarrow> (Inl err, [])
      | Inr p \<Rightarrow>
     (case int_field (zoom t) of
        Inl err \<Rightarrow> (Inl err, [])
      | Inr z \<Rightarrow>
     (case get_date t of
        Inl err \<Rightarrow> (Inl err, [])
      | Inr date \<Rightarrow>
     (case try_direct_download w pano_id h p z date of
        (None, ev) \<Rightarrow> (Inr None, ev)
      | (Some (url, content), ev) \<Rightarrow>
          if url \<noteq> [] \<and> content \<noteq> [] then
            (case create_new_filename t of
               Inl err \<Rightarrow> (Inr None, ev)
             | Inr base_filename \<Rightarrow>
                 if direct_store_ok w
                 then (Inr (Some [base_filename, thumb_filename base_filename]), ev)
                 else (Inr None, ev))
          else (Inr None, ev)))))))"

section \<open>The browser pool\<close>

text \<open>
  \<^verbatim>\<open>
  class BrowserPool:
      def __init__(self, max_browsers):
          self.max_browsers = max_browsers
          self.browsers = []
          self.available = asyncio.Queue()
      async def initialize(self):
          for _ in range(self.max_browsers):
              browser = await self.playwright.chromium.launch(...)
              self.browsers.append(browser)
              await self.available.put(browser)
      async def get_browser(self):
          return await self.available.get()
      async def return_browser(self, browser):
          await self.available.put(browser)
  \<close>
  Browsers are numbered in launch order. The queue is unbounded and first-in first-out;
  \<open>get\<close> on the empty queue does not return.
\<close>

record browser_pool =
  max_browsers :: nat
  browsers :: "nat list"
  available :: "nat list"

definition new_pool :: "nat \<Rightarrow> browser_pool" where
  "new_pool n = \<lparr>max_browsers = n, browsers = [], available = []\<rparr>"

definition initialize :: "browser_pool \<Rightarrow> browser_pool" where
  "initialize pool =
     pool\<lparr>browsers := browsers pool @ [0..<max_browsers pool],
          available := available pool @ [0..<max_browsers pool]\<rparr>"

definition get_browser :: "browser_pool \<Rightarrow> (nat \<times> browser_pool) option" where
  "get_browser pool =
     (case available pool of
        [] \<Rightarrow> None
      | browser # rest \<Rightarrow> Some (browser, pool\<lparr>available := rest\<rparr>))"

definition return_browser :: "browser_pool \<Rightarrow> nat \<Rightarrow> browser_pool" where
  "return_browser pool browser = pool\<lparr>available := available pool @ [browser]\<rparr>"

section \<open>The browser tier and the per-tile download\<close>

text \<open>
  The body of the \<open>try\<close> statement of \<open>download_pano_image\<close> together with its
  \<open>except Exception: return None\<close>: whether \<open>page\<close> got bound, and the value about to be
  returned when control reaches \<open>finally\<close>.
  \<^verbatim>\<open>
  try:
      page = await browser.new_page()
      await page.set_viewport_size({...})
      ...
      pano_id = None
      if "panoId" in tile and ...: pano_id = tile["panoId"]
      elif "extra" in tile and ...: pano_id = tile["extra"]["panoId"]
      if not pano_id:
          raise ValueError("Tile must have panoId - no fallback to lat/lng allowed")
      ...
      try:
          await page.goto(url, wait_until="networkidle", timeout=60000)
      except Exception as e:
          return None
      await page.wait_for_selector("#pano", timeout=30000)
      try:
          await page.wait_for_function("window.panoLoaded === true", timeout=30000)
          await asyncio.sleep(1)
      except Exception as e:
          print(...)            # warning only
      try:
          base_filename = create_new_filename(tile)
          full_filename = base_filename
          thumb_filename = base_filename.replace('.jpg', '~thumb.jpg')
      except Exception as e:
          return None
      pano_element = await page.query_selector("#pano")
      if pano_element:
          ...screenshot, brightness check, thumbnail, store...
          return [full_filename, thumb_filename]
      else:
          return None
  except Exception as e:
      return None
  \<close>
\<close>

definition browser_body :: "env \<Rightarrow> tile \<Rightarrow> bool \<times> string list option" where
  "browser_body w t =
     (if \<not> new_page_ok w then (False, None)
      else if \<not> set_viewport_ok w then (True, None)
      else
        (case checked_pano_id t of
           None \<Rightarrow> (True, None)
         | Some pano_id \<Rightarrow>
             if \<not> goto_ok w then (True, None)
             else if \<not> wait_for_selector_ok w then (True, None)
             else
               let loaded = wait_for_function_ok w in
               (case create_new_filename t of
                  Inl err \<Rightarrow> (True, None)
                | Inr base_filename \<Rightarrow>
                    (case query_selector w of
                       QueryRaises \<Rightarrow> (True, None)
                     | NoElement \<Rightarrow> (True, None)
                     | Element \<Rightarrow>
                         if capture_ok w
                         then (True, Some [base_filename, thumb_filename base_filename])
                         else (True, None)))))"

text \<open>
  \<^verbatim>\<open>
  async def download_pano_image(browser_pool, tile, ..., skip_direct_download=False):
      if not skip_direct_download:
          direct_result = await download_pano_image_direct(tile, output_dir)
          if direct_result:
              return direct_result
      browser = await browser_pool.get_browser()
      try:
          ...
      except Exception as e:
          return None
      finally:
          await page.close()
          await browser_pool.return_browser(browser)
  \<close>
  In \<open>finally\<close>, \<open>page.close()\<close> comes first: when \<open>page\<close> was never bound the name lookup
  raises \<open>UnboundLocalError\<close>, and when closing raises, that exception propagates; in both
  cases the pending return value is discarded and \<open>return_browser\<close> is not reached.
  The function is the same in both variants up to where the images are stored.
\<close>

definition download_pano_image ::
  "browser_pool \<Rightarrow> env \<Rightarrow> tile \<Rightarrow> bool \<Rightarrow> string list option outcome \<times> browser_pool \<times> event list"
where
  "download_pano_image pool w t skip_direct_download =
     (case (if skip_direct_download then (Inr None, []) else download_pano_image_direct w t) of
        (Inl err, ev) \<Rightarrow> (Raises err, pool, ev)
      | (Inr (Some direct_result), ev) \<Rightarrow> (Returns (Some direct_result), pool, ev)
      | (Inr None, ev) \<Rightarrow>
          (case get_browser pool of
             None \<Rightarrow> (Blocks, pool, ev)
           | Some (browser, pool1) \<Rightarrow>
               (case browser_body w t of
                  (page_bound, result) \<Rightarrow>
                    if \<not> page_bound
                    then (Raises UnboundLocalError, pool1, ev @ [GetBrowser browser])
                    else if \<not> page_close_ok w
                    then (Raises PlaywrightError, pool1, ev @ [GetBrowser browser])
                    else (Returns result, return_browser pool1 browser,
                          ev @ [GetBrowser browser, ReturnBrowser browser]))))"

section \<open>Processing a puzzle file, local-disk variant\<close>

text \<open>
  The first loop of \<open>process_json_file_async\<close> sorts each tile by what exists on disk.
  \<^verbatim>\<open>
  for tile in tiles:
      ...pano_id as in the check above...
      if not pano_id:
          continue
      try:
          base_filename = create_new_filename(tile)
          full_filename = base_filename
          thumb_filename = base_filename.replace('.jpg', '~thumb.jpg')
      except Exception as e:
          continue
      full_exists = (output_dir / full_filename).exists()
      thumb_exists = (output_dir / thumb_filename).exists()
      if not full_exists and not thumb_exists:
          needed_tiles.append(tile)
      elif not full_exists and thumb_exists:
          needed_tiles.append(tile)
      elif full_exists and not thumb_exists:
          thumb_only_tiles.append(tile)
  \<close>
\<close>

datatype need = Download | ThumbOnly | Skip

definition classify :: "string set \<Rightarrow> tile \<Rightarrow> need" where
  "classify disk t =
     (case checked_pano_id t of
        None \<Rightarrow> Skip
      | Some pano_id \<Rightarrow>
          (case create_new_filename t of
             Inl err \<Rightarrow> Skip
           | Inr base_filename \<Rightarrow>
               let full_exists = base_filename \<in> disk;
                   thumb_exists = thumb_filename base_filename \<in> disk
               in if \<not> full_exists \<and> \<not> thumb_exists then Download
                  else if \<not> full_exists \<and> thumb_exists then Download
                  else if full_exists \<and> \<not> thumb_exists then ThumbOnly
                  else Skip))"

text \<open>
  \<^verbatim>\<open>
  for i, tile in enumerate(needed_tiles):
      print(f"  [{i+1}/{len(needed_tiles)}] Processing tile...")
      filenames = await download_pano_image(browser_pool, tile, ...)
      if filenames:
          downloaded.extend(filenames)
  \<close>
  Each tile comes with the \<open>env\<close> that its processing meets.
\<close>

fun download_needed ::
  "browser_pool \<Rightarrow> bool \<Rightarrow> nat \<Rightarrow> nat \<Rightarrow> (tile \<times> env) list \<Rightarrow>
   string list outcome \<times> browser_pool \<times> event list"
where
  "download_needed pool skip i n [] = (Returns [], pool, [])"
| "download_needed pool skip i n ((t, w) # rest) =
     (case download_pano_image pool w t skip of
        (Raises err, pool1, ev) \<Rightarrow> (Raises err, pool1, Processing (i + 1) n # ev)
      | (Blocks, pool1, ev) \<Rightarrow> (Blocks, pool1, Processing (i + 1) n # ev)
      | (Returns filenames, pool1, ev) \<Rightarrow>
          (case download_needed pool1 skip (i + 1) n rest of
             (Raises err, pool2, ev2) \<Rightarrow> (Raises err, pool2, Processing (i + 1) n # ev @ ev2)
           | (Blocks, pool2, ev2) \<Rightarrow> (Blocks, pool2, Processing (i + 1) n # ev @ ev2)
           | (Returns downloaded, pool2, ev2) \<Rightarrow>
               (Returns ((case filenames of None \<Rightarrow> [] | Some fs \<Rightarrow> fs) @ downloaded),
                pool2, Processing (i + 1) n # ev @ ev2)))"

text \<open>
  \<^verbatim>\<open>
  for i, tile in enumerate(thumb_only_tiles):
      try:
          base_filename = create_new_filename(tile)
          thumb_filename = base_filename.replace('.jpg', '~thumb.jpg')
          ...open the full image, resize, save the thumbnail...
          downloaded.append(thumb_filename)
      except Exception as e:
          print(...)
  \<close>
\<close>

fun generate_thumbs :: "(tile \<times> env) list \<Rightarrow> string list" where
  "generate_thumbs [] = []"
| "generate_thumbs ((t, w) # rest) =
     (case create_new_filename t of
        Inl err \<Rightarrow> generate_thumbs rest
      | Inr base_filename \<Rightarrow>
          if thumb_from_full_ok w then thumb_filename base_filename # generate_thumbs rest
          else generate_thumbs rest)"

text \<open>
  A puzzle file either cannot be read, or has none of the recognised shapes, or yields a
  list of tiles. The whole body of \<open>process_json_file_async\<close> is inside
  \<open>try: ... except Exception as e: return []\<close>.
\<close>

datatype puzzle_file = Unreadable | UnknownStructure | Tiles "(tile \<times> env) list"

definition needed_tiles :: "string set \<Rightarrow> (tile \<times> env) list \<Rightarrow> (tile \<times> env) list" where
  "needed_tiles disk tiles = filter (\<lambda>(t, w). classify disk t = Download) tiles"

definition thumb_only_tiles :: "string set \<Rightarrow> (tile \<times> env) list \<Rightarrow> (tile \<times> env) list" where
  "thumb_only_tiles disk tiles = filter (\<lambda>(t, w). classify disk t = ThumbOnly) tiles"

definition process_json_file_async ::
  "browser_pool \<Rightarrow> bool \<Rightarrow> string set \<Rightarrow> puzzle_file \<Rightarrow>
   string list outcome \<times> browser_pool \<times> event list"
where
  "process_json_file_async pool skip disk json_file =
     (case json_file of
        Unreadable \<Rightarrow> (Returns [], pool, [])
      | UnknownStructure \<Rightarrow> (Returns [], pool, [])
      | Tiles tiles \<Rightarrow>
          if tiles = [] then (Returns [], pool, [])
          else if needed_tiles disk tiles = [] \<and> thumb_only_tiles disk tiles = []
          then (Returns [], pool, [])
          else
            (case download_needed pool skip 0 (length (needed_tiles disk tiles))
                    (needed_tiles disk tiles) of
               (Raises err, pool1, ev) \<Rightarrow> (Returns [], pool1, ev)
             | (Blocks, pool1, ev) \<Rightarrow> (Blocks, pool1, ev)
             | (Returns downloaded, pool1, ev) \<Rightarrow>
                 (Returns (downloaded @ generate_thumbs (thumb_only_tiles disk tiles)),
                  pool1, ev)))"

text \<open>
  The loop of \<open>main_async\<close> over the puzzle files. Each file is paired with the set of
  names present in the image directory when that file is scanned.
  \<^verbatim>\<open>
  for json_file in sorted(json_files):
      try:
          result = await process_json_file_async(json_file, browser_pool, ...)
          all_downloaded.extend(result)
      except Exception as e:
          print(...)
  \<close>
\<close>

fun process_files ::
  "browser_pool \<Rightarrow> bool \<Rightarrow> (string set \<times> puzzle_file) list \<Rightarrow>
   string list outcome \<times> browser_pool \<times> event list"
where
  "process_files pool skip [] = (Returns [], pool, [])"
| "process_files pool skip ((disk, json_file) # rest) =
     (case process_json_file_async pool skip disk json_file of
        (Blocks, pool1, ev) \<Rightarrow> (Blocks, pool1, ev)
      | (Raises err, pool1, ev) \<Rightarrow>
          (case process_files pool1 skip rest of (r, pool2, ev2) \<Rightarrow> (r, pool2, ev @ ev2))
      | (Returns result, pool1, ev) \<Rightarrow>
          (case process_files pool1 skip rest of
             (Returns all_downloaded, pool2, ev2) \<Rightarrow>
               (Returns (result @ all_downloaded), pool2, ev @ ev2)
           | (Raises err, pool2, ev2) \<Rightarrow> (Raises err, pool2, ev @ ev2)
           | (Blocks, pool2, ev2) \<Rightarrow> (Blocks, pool2, ev @ ev2)))"

section \<open>What the specification says about acquisition\<close>

text \<open>The URL of the direct tier for an asset name.\<close>

definition pano_img_url :: "string \<Rightarrow> string" where
  "pano_img_url name = ''https://geonections.com/pano/img/'' @ name"

text \<open>
  The direct tier succeeds: the answer has status 200, an image content type and a
  non-empty body, and the image and its thumbnail get stored.
\<close>

definition direct_succeeds :: "env \<Rightarrow> string \<Rightarrow> bool" where
  "direct_succeeds w name =
     (case http_get w (pano_img_url name) of
        HttpRaises \<Rightarrow> False
      | HttpResponse status_code content_type content \<Rightarrow>
          status_code = 200 \<and> sublist ''image'' content_type \<and> content \<noteq> [] \<and>
          direct_store_ok w)"

text \<open>The browser tier succeeds: every step up to storing the screenshot completes.\<close>

definition browser_succeeds :: "env \<Rightarrow> bool" where
  "browser_succeeds w =
     (new_page_ok w \<and> set_viewport_ok w \<and> goto_ok w \<and> wait_for_selector_ok w \<and>
      query_selector w = Element \<and> capture_ok w \<and> page_close_ok w)"

definition direct_requests :: "event list \<Rightarrow> string list" where
  "direct_requests ev =
     List.map_filter (\<lambda>e. case e of DirectRequest url \<Rightarrow> Some url | _ \<Rightarrow> None) ev"

definition browser_attempts :: "event list \<Rightarrow> nat" where
  "browser_attempts ev = length (filter is_GetBrowser ev)"

definition tiles_of :: "puzzle_file \<Rightarrow> (tile \<times> env) list" where
  "tiles_of json_file = (case json_file of Tiles tiles \<Rightarrow> tiles | _ \<Rightarrow> [])"

text \<open>
  Example worlds: every step completes and the direct fetch answers with an image
  (\<open>all_ok\<close>), or with HTTP 404 (\<open>not_found\<close>); two launched browsers.
\<close>

definition all_ok :: env where
  "all_ok =
     \<lparr>http_get = (\<lambda>url. HttpResponse 200 ''image/jpeg'' ''JFIF''),
      direct_store_ok = True, new_page_ok = True, set_viewport_ok = True, goto_ok = True,
      wait_for_selector_ok = True, wait_for_function_ok = True, query_selector = Element,
      capture_ok = True, page_close_ok = True, thumb_from_full_ok = True\<rparr>"

definition not_found :: env where
  "not_found = all_ok\<lparr>http_get := (\<lambda>url. HttpResponse 404 ''text/html'' ''Not Found'')\<rparr>"

definition pool2 :: browser_pool where
  "pool2 = initialize (new_pool 2)"

text \<open>
  Two more worlds: after a 404 the page navigation times out (\<open>timed_out\<close>); after a 404
  the browser cannot open a page (\<open>page_fails\<close>).
\<close>

definition timed_out :: env where
  "timed_out = not_found\<lparr>goto_ok := False\<rparr>"

definition page_fails :: env where
  "page_fails = not_found\<lparr>new_page_ok := False\<rparr>"

text \<open>
  A tile without an identifier in either place, and a batch of three puzzle files: two
  tiles whose direct fetch answers 404 (for the first the page navigation then times
  out), an unreadable file, and one more tile.
\<close>

definition no_id_tile :: tile where
  "no_id_tile =
     \<lparr>panoId = Null, heading = Val (PInt 10), pitch = Absent, zoom = Absent,
      extra = Val \<lparr>extra_panoId = Val '''', extra_panoDate = Val ''2023-05''\<rparr>\<rparr>"

definition example_batch :: "(string set \<times> puzzle_file) list" where
  "example_batch =
     [({}, Tiles [(example_tile, timed_out), (jpg_tile, not_found)]),
      ({}, Unreadable),
      ({}, Tiles [(example_tile, not_found)])]"

section \<open>Verified properties\<close>

subsection \<open>Digits and rounding\<close>

lemma digit_char_cases:
  "d < 10 \<Longrightarrow> d = 0 \<or> d = 1 \<or> d = 2 \<or> d = 3 \<or> d = 4 \<or> d = 5 \<or> d = 6 \<or> d = 7 \<or> d = 8 \<or> d = (9::nat)"
  by arith

lemma digit_char_in: "d < 10 \<Longrightarrow> digit_char d \<in> set ''0123456789''"
  unfolding digit_char_def by (rule nth_mem) simp

lemma digit_char_not_dot: "d < 10 \<Longrightarrow> digit_char d \<noteq> CHR ''.''"
  using digit_char_in[of d] by auto

lemma digit_char_zero: "d < 10 \<Longrightarrow> digit_char d = CHR ''0'' \<longleftrightarrow> d = 0"
  using digit_char_cases[of d] by (auto simp: digit_char_def)

lemma str_nat_last: "\<exists>s d. str_nat n = s @ [digit_char d] \<and> d < 10"
proof (cases "n < 10")
  case True
  then show ?thesis by (subst str_nat.simps) auto
next
  case False
  have "str_nat n = str_nat (n div 10) @ [digit_char (n mod 10)]"
    using False by (subst str_nat.simps) simp
  then show ?thesis by (intro exI[of _ "str_nat (n div 10)"] exI[of _ "n mod 10"]) simp
qed

lemma rstrip_dot_str_nat: "rstrip CHR ''.'' (p @ str_nat n) = p @ str_nat n"
proof -
  obtain s d where sd: "str_nat n = s @ [digit_char d]" "d < 10"
    using str_nat_last by blast
  then show ?thesis by (simp add: rstrip_def digit_char_not_dot)
qed

lemma rhe_nearest:
  assumes "0 < b"
  shows "\<bar>2 * a - 2 * b * round_half_even a b\<bar> \<le> b"
proof -
  define q where "q = a div b"
  define r where "r = a mod b"
  have a: "a = b * q + r" and r: "0 \<le> r" "r < b"
    using assms by (simp_all add: q_def r_def)
  have q1: "b * (q + 1) = b * q + b" by (simp add: algebra_simps)
  show ?thesis
    unfolding round_half_even_def Let_def q_def[symmetric] r_def[symmetric]
    using r by (auto simp: a algebra_simps)
qed

lemma rhe_bounds:
  assumes "0 < b" "\<bar>a\<bar> < N * b"
  shows "\<bar>round_half_even a b\<bar> \<le> N"
proof -
  define q where "q = a div b"
  define r where "r = a mod b"
  have a: "a = b * q + r" and r: "0 \<le> r" "r < b"
    using assms by (simp_all add: q_def r_def)
  have "b * q < b * N"
    using assms(2) r(1) by (simp add: a mult.commute)
  then have up: "q < N"
    using assms(1) by (simp add: mult_less_cancel_left_pos)
  have "b * (- N) < b * (q + 1)"
    using assms(2) r(2) by (simp add: a algebra_simps)
  then have lo: "- N < q + 1"
    using assms(1) by (simp only: mult_less_cancel_left_pos)
  show ?thesis
    unfolding round_half_even_def Let_def q_def[symmetric] r_def[symmetric]
    using up lo by auto
qed

lemma int_of_rounded_whole: "int_of_rounded (100 * j) = j"
proof (cases "0 \<le> j")
  case True
  then show ?thesis by (simp add: int_of_rounded_def)
next
  case False
  have "- (100 * j) = 100 * (- j)" by simp
  then have "(- (100 * j)) div 100 = - j" by (simp only: nonzero_mult_div_cancel_left)
  with False show ?thesis by (simp add: int_of_rounded_def)
qed

lemma whole_iff: "k = 100 * int_of_rounded k \<longleftrightarrow> k mod 100 = 0"
proof (cases "0 \<le> k")
  case True
  have "100 * (k div 100) + k mod 100 = k" by simp
  then have "k = 100 * (k div 100) \<longleftrightarrow> k mod 100 = 0" by linarith
  with True show ?thesis by (simp add: int_of_rounded_def)
next
  case False
  have "100 * ((- k) div 100) + (- k) mod 100 = - k" by (rule mult_div_mod_eq)
  then have "k = 100 * (- ((- k) div 100)) \<longleftrightarrow> (- k) mod 100 = 0" by linarith
  also have "\<dots> \<longleftrightarrow> k mod 100 = 0"
    by (simp only: mod_eq_0_iff_dvd dvd_minus_iff)
  finally show ?thesis using False by (simp add: int_of_rounded_def)
qed


lemma spec_format_whole: "spec_format (100 * j) = str_int j"
proof -
  have m: "nat \<bar>100 * j\<bar> mod 100 = 0" "nat \<bar>100 * j\<bar> div 100 = nat \<bar>j\<bar>"
    by (simp_all add: abs_mult nat_mult_distrib)
  have f: "fixed2 (100 * j) = ((if j < 0 then ''-'' else '''') @ str_nat (nat \<bar>j\<bar>)) @ ''.00''"
    by (simp add: fixed2_def Let_def m digit_char_def)
  have "rstrip CHR ''0'' (fixed2 (100 * j)) = ((if j < 0 then ''-'' else '''') @ str_nat (nat \<bar>j\<bar>)) @ ''.''"
    unfolding f by (simp add: rstrip_def)
  then have "spec_format (100 * j) = (if j < 0 then ''-'' else '''') @ str_nat (nat \<bar>j\<bar>)"
    unfolding spec_format_def
    using rstrip_dot_str_nat[of "(if j < 0 then ''-'' else '''')" "nat \<bar>j\<bar>"]
    by (simp add: rstrip_def)
  then show ?thesis by (simp add: str_int_def)
qed

lemma spec_format_frac:
  assumes "k mod 100 \<noteq> 0" "\<bar>k\<bar> < 10 ^ 15"
  shows "str_rounded k = Inr (spec_format k)"
proof -
  define a where "a = nat \<bar>k\<bar>"
  define d1 where "d1 = (a mod 100) div 10"
  define d2 where "d2 = (a mod 100) mod 10"
  define p where "p = (if k < 0 then ''-'' else '''') @ str_nat (a div 100) @ ''.''"
  have d: "d1 < 10" "d2 < 10" unfolding d1_def d2_def by simp_all
  have "\<not> 100 dvd k" using assms(1) by (simp add: dvd_eq_mod_eq_0)
  then have "\<not> 100 dvd \<bar>k\<bar>" by simp
  then have "\<not> (100::nat) dvd nat \<bar>k\<bar>"
    by (metis abs_ge_zero int_dvd_int_iff nat_0_le of_nat_numeral)
  then have "a mod 100 \<noteq> 0" unfolding a_def by (simp add: dvd_eq_mod_eq_0)
  moreover have "a mod 100 = 10 * d1 + d2" unfolding d1_def d2_def by simp
  ultimately have nz: "d2 = 0 \<Longrightarrow> d1 \<noteq> 0" by auto
  have f: "fixed2 k = p @ [digit_char d1, digit_char d2]"
    by (simp add: fixed2_def Let_def a_def d1_def d2_def p_def)
  have s: "str_rounded k = Inr (p @ [digit_char d1] @ (if d2 = 0 then [] else [digit_char d2]))"
    using assms(2) by (simp add: str_rounded_def Let_def a_def d1_def d2_def p_def)
  have "spec_format k = p @ [digit_char d1] @ (if d2 = 0 then [] else [digit_char d2])"
    unfolding spec_format_def f
    using d nz by (auto simp: rstrip_def digit_char_zero digit_char_not_dot)
  with s show ?thesis by simp
qed

lemma round_number_refines:
  assumes "in_model_range num"
  shows "\<exists>k. nearest_hundredths num k \<and> round_number num = Inr (spec_format k)"
proof (cases num)
  case (PInt n)
  have "round_half_even (100 * n) 1 = 100 * n" by (simp add: round_half_even_def)
  then have "round_number num = Inr (str_int n)"
    using assms PInt
    by (simp add: in_model_range_def round_number_def float_of_int_def py_round2_def
        int_of_rounded_whole)
  then show ?thesis
    using PInt by (intro exI[of _ "100 * n"]) (simp add: nearest_hundredths_def spec_format_whole)
next
  case (PFloat m e)
  define k where "k = round_half_even (100 * m) (2 ^ e)"
  have pos: "(0::int) < 2 ^ e" by simp
  have near: "nearest_hundredths num k"
    using rhe_nearest[OF pos, of "100 * m"] PFloat by (simp add: nearest_hundredths_def k_def)
  have "\<bar>100 * m\<bar> < 10 ^ 15 * 2 ^ e"
    using assms PFloat by (simp add: in_model_range_def abs_mult)
  then have bound: "\<bar>k\<bar> \<le> 10 ^ 15"
    unfolding k_def using rhe_bounds[OF pos] by blast
  have rn: "round_number num =
      (if k = 100 * int_of_rounded k then Inr (str_int (int_of_rounded k)) else str_rounded k)"
    using PFloat by (simp add: round_number_def py_round2_def k_def Let_def)
  show ?thesis
  proof (cases "k mod 100 = 0")
    case True
    then have w: "k = 100 * int_of_rounded k" by (simp add: whole_iff)
    have "spec_format k = str_int (int_of_rounded k)"
      using spec_format_whole[of "int_of_rounded k"] w by simp
    with rn w near show ?thesis by (intro exI[of _ k]) simp
  next
    case False
    then have nw: "k \<noteq> 100 * int_of_rounded k" by (simp add: whole_iff)
    have "\<bar>k\<bar> \<noteq> 10 ^ 15"
    proof
      assume "\<bar>k\<bar> = 10 ^ 15"
      then have "k = 10 ^ 15 \<or> k = - (10 ^ 15)" by arith
      then have "k mod 100 = 0" by auto
      with False show False by simp
    qed
    with bound have "\<bar>k\<bar> < 10 ^ 15" by simp
    from spec_format_frac[OF False this] rn nw near show ?thesis
      by (intro exI[of _ k]) simp
  qed
qed

lemmas eval_defs = round_number_def float_of_int_def py_round2_def round_half_even_def
  int_of_rounded_def str_int_def str_rounded_def str_nat.simps digit_char_def Let_def

text \<open>
  Claim C6. \<open>round_number\<close> rounds to two decimals and emits the integer string for a
  whole result, the shortest decimal representation otherwise. The doubles nearest to
  1.005 and 12.3456 are \<open>1131529406376837 / 2 ^ 50\<close> and \<open>6949954944958149 / 2 ^ 49\<close>;
  \<open>round_number(1.0)\<close> and \<open>round_number(1.005)\<close> give \<open>"1"\<close>, \<open>round_number(12.3456)\<close>
  gives \<open>"12.35"\<close>. On every number in the modelled range the result is the
  specification's formatting of a nearest two-decimal value.
\<close>

theorem round_number_rounds_to_two_decimals:
  "round_number (PFloat 1 0) = Inr ''1''
   \<and> (round_number (PFloat 1131529406376837 50) = Inr ''1''
        \<or> round_number (PFloat 1131529406376837 50) = Inr ''1.0'')
   \<and> round_number (PFloat 6949954944958149 49) = Inr ''12.35''
   \<and> (\<forall>num. in_model_range num \<longrightarrow>
          (\<exists>k. nearest_hundredths num k \<and> round_number num = Inr (spec_format k)))"
proof -
  have a: "round_number (PFloat 1 0) = Inr ''1''"
    by (simp add: eval_defs)
  have b: "round_number (PFloat 1131529406376837 50) = Inr ''1''"
    by (simp add: eval_defs)
  have c: "round_number (PFloat 6949954944958149 49) = Inr ''12.35''"
    by (simp add: eval_defs)
  show ?thesis
    using a b c round_number_refines by blast
qed

theorem round_number_rounds_to_two_decimals_witness:
  "in_model_range (PFloat 6949954944958149 49)
   \<and> (\<exists>k. nearest_hundredths (PFloat 6949954944958149 49) k
          \<and> round_number (PFloat 6949954944958149 49) = Inr (spec_format k))"
proof -
  have r: "in_model_range (PFloat 6949954944958149 49)"
    by (simp add: in_model_range_def)
  from round_number_rounds_to_two_decimals
  have "\<forall>num. in_model_range num \<longrightarrow>
          (\<exists>k. nearest_hundredths num k \<and> round_number num = Inr (spec_format k))"
    by (elim conjE)
  with r show ?thesis by blast
qed

subsection \<open>The codec on well-formed tiles\<close>

lemma round_field_wf:
  assumes "wf_num_field f"
  shows "\<exists>k. nearest_hundredths (field_num f) k \<and> round_field f = Inr (spec_format k)"
proof (cases f)
  case Absent
  have "in_model_range (PInt 0)" by (simp add: in_model_range_def)
  from round_number_refines[OF this] Absent show ?thesis by simp
next
  case Null
  with assms show ?thesis by simp
next
  case (Val n)
  with assms have "in_model_range n" by simp
  from round_number_refines[OF this] Val show ?thesis by simp
qed

lemma int_field_wf: "f \<noteq> Null \<Longrightarrow> int_field f = Inr (py_int (field_num f))"
  by (cases f) simp_all

lemma checked_pano_id_get:
  "extra t \<noteq> Null \<Longrightarrow> get_pano_id t = Inr (checked_pano_id t)"
  by (cases "extra t")
     (simp_all add: get_pano_id_def checked_pano_id_def empty_dict_def split: option.splits)

lemma get_date_wf: "extra t \<noteq> Null \<Longrightarrow> get_date t = Inr (spec_date t)"
  by (cases "extra t")
     (simp_all add: get_date_def spec_date_def empty_dict_def split: option.splits field.splits)

lemma create_new_filename_wf:
  assumes "checked_pano_id t = Some pid" and "wf_tile t"
  shows "\<exists>hk pk. nearest_hundredths (field_num (heading t)) hk
            \<and> nearest_hundredths (field_num (pitch t)) pk
            \<and> create_new_filename t =
                Inr (pid @ ''~d'' @ spec_date t @ ''~h'' @ spec_format hk @ ''~p'' @
                     spec_format pk @ ''~z'' @ str_int (py_int (field_num (zoom t))) @ ''.jpg'')"
proof -
  from assms(2) have e: "extra t \<noteq> Null" and h: "wf_num_field (heading t)"
    and p: "wf_num_field (pitch t)" and z: "zoom t \<noteq> Null"
    by (simp_all add: wf_tile_def)
  obtain hk where hk: "nearest_hundredths (field_num (heading t)) hk"
      "round_field (heading t) = Inr (spec_format hk)"
    using round_field_wf[OF h] by blast
  obtain pk where pk: "nearest_hundredths (field_num (pitch t)) pk"
      "round_field (pitch t) = Inr (spec_format pk)"
    using round_field_wf[OF p] by blast
  have "create_new_filename t =
      Inr (asset_name pid (spec_date t) (spec_format hk) (spec_format pk)
             (py_int (field_num (zoom t))))"
    by (simp add: create_new_filename_def checked_pano_id_get[OF e] assms(1) get_date_wf[OF e]
        hk(2) pk(2) int_field_wf[OF z])
  with hk(1) pk(1) show ?thesis
    unfolding asset_name_def by blast
qed

lemma example_tile_name:
  "create_new_filename example_tile = Inr ''ABC123~d2023-05~h90~p0~z1.jpg''"
  by (simp add: example_tile_def create_new_filename_def get_pano_id_def get_date_def
      asset_name_def eval_defs)

text \<open>
  Claim C1. For every well-formed tile record with a panorama identifier the codec
  returns \<open>{panoId}~d{date}~h{heading}~p{pitch}~z{zoom}.jpg\<close>: heading and pitch are
  nearest two-decimal values in the specification's formatting, zoom is the integer
  value, the date is \<open>extra.panoDate\<close> or the fallback \<open>2024-01\<close>. The tile
  \<open>{panoId: "ABC123", heading: 90, pitch: 0, zoom: 1, extra: {panoDate: "2023-05"}}\<close>
  encodes to \<open>ABC123~d2023-05~h90~p0~z1.jpg\<close>.
\<close>

theorem create_new_filename_format:
  "(\<forall>t pid. checked_pano_id t = Some pid \<and> wf_tile t \<longrightarrow>
      (\<exists>hk pk. nearest_hundredths (field_num (heading t)) hk
            \<and> nearest_hundredths (field_num (pitch t)) pk
            \<and> create_new_filename t =
                Inr (pid @ ''~d'' @ spec_date t @ ''~h'' @ spec_format hk @ ''~p'' @
                     spec_format pk @ ''~z'' @ str_int (py_int (field_num (zoom t))) @ ''.jpg'')))
   \<and> create_new_filename example_tile = Inr ''ABC123~d2023-05~h90~p0~z1.jpg''"
  using create_new_filename_wf example_tile_name by blast

theorem create_new_filename_format_witness:
  "checked_pano_id example_tile = Some ''ABC123'' \<and> wf_tile example_tile
   \<and> (\<exists>hk pk. nearest_hundredths (field_num (heading example_tile)) hk
            \<and> nearest_hundredths (field_num (pitch example_tile)) pk
            \<and> create_new_filename example_tile =
                Inr (''ABC123'' @ ''~d'' @ spec_date example_tile @ ''~h'' @ spec_format hk @
                     ''~p'' @ spec_format pk @ ''~z'' @
                     str_int (py_int (field_num (zoom example_tile))) @ ''.jpg''))"
proof -
  have c: "checked_pano_id example_tile = Some ''ABC123''"
    by (simp add: checked_pano_id_def example_tile_def)
  have w: "wf_tile example_tile"
    by (simp add: wf_tile_def example_tile_def in_model_range_def)
  from create_new_filename_format c w show ?thesis by blast
qed

subsection \<open>Thumbnail names\<close>

lemma py_replace_Nil: "old \<noteq> [] \<Longrightarrow> py_replace old new [] = []"
  by (subst py_replace.simps) simp

lemma py_replace_match:
  "old \<noteq> [] \<Longrightarrow> py_replace old new (old @ s) = new @ py_replace old new s"
  by (subst py_replace.simps) simp

lemma py_replace_skip:
  "old \<noteq> [] \<Longrightarrow> \<not> prefix old (c # s) \<Longrightarrow> py_replace old new (c # s) = c # py_replace old new s"
  by (subst py_replace.simps) simp

lemma thumb_filename_jpg_tile: "thumb_filename ''a.jpg~d2024-01~h0~p0~z0.jpg'' = ''a~thumb.jpg~d2024-01~h0~p0~z0~thumb.jpg''"
  unfolding thumb_filename_def
  by (simp add: py_replace_skip py_replace_Nil py_replace_match[of "''.jpg''", simplified])

lemma py_replace_only_suffix:
  assumes "old \<noteq> []" and "\<And>ps ss. a @ old = ps @ old @ ss \<Longrightarrow> ss = []"
  shows "py_replace old new (a @ old) = a @ new"
  using assms(2)
proof (induction a)
  case Nil
  show ?case using py_replace_match[OF assms(1), of new "[]"] py_replace_Nil[OF assms(1)] by simp
next
  case (Cons c a)
  have np: "\<not> prefix old (c # a @ old)"
  proof
    assume "prefix old (c # a @ old)"
    then obtain ss where ss: "c # a @ old = old @ ss" by (auto simp: prefix_def)
    then have "(c # a) @ old = [] @ old @ ss" by simp
    from Cons.prems[OF this] have "ss = []" .
    with ss show False by (metis append_Nil2 append_self_conv2 list.distinct(1) append_Cons)
  qed
  have "\<And>ps ss. a @ old = ps @ old @ ss \<Longrightarrow> ss = []"
  proof -
    fix ps ss assume "a @ old = ps @ old @ ss"
    then have "(c # a) @ old = (c # ps) @ old @ ss" by simp
    from Cons.prems[OF this] show "ss = []" .
  qed
  from Cons.IH[OF this] np show ?case
    by (simp add: py_replace_skip[OF assms(1)])
qed

lemma jpg_only_suffix:
  assumes "\<not> sublist ''.jpg'' a" and "a @ ''.jpg'' = ps @ ''.jpg'' @ ss"
  shows "ss = []"
proof -
  from assms(2) obtain us where
    "(a = ps @ us \<and> us @ ''.jpg'' = ''.jpg'' @ ss) \<or> (a @ us = ps \<and> ''.jpg'' = us @ ''.jpg'' @ ss)"
    by (auto simp: append_eq_append_conv2)
  then show ?thesis
  proof
    assume h: "a = ps @ us \<and> us @ ''.jpg'' = ''.jpg'' @ ss"
    show ?thesis
    proof (cases us)
      case Nil with h show ?thesis by simp
    next
      case (Cons u1 r1)
      note c1 = this
      show ?thesis
      proof (cases r1)
        case Nil with h c1 show ?thesis by simp
      next
        case (Cons u2 r2)
        note c2 = this
        show ?thesis
        proof (cases r2)
          case Nil with h c1 c2 show ?thesis by simp
        next
          case (Cons u3 r3)
          note c3 = this
          show ?thesis
          proof (cases r3)
            case Nil with h c1 c2 c3 show ?thesis by simp
          next
            case (Cons u4 r4)
            with h c1 c2 c3 have "us = ''.jpg'' @ r4" by simp
            with h have "sublist ''.jpg'' a" by (simp add: sublist_def) (metis append.assoc)
            with assms(1) show ?thesis by simp
          qed
        qed
      qed
    qed
  next
    assume h: "a @ us = ps \<and> ''.jpg'' = us @ ''.jpg'' @ ss"
    then have "''.jpg'' = us @ ''.jpg'' @ ss" by (rule conjunct2)
    then have "length ''.jpg'' = length (us @ ''.jpg'' @ ss)" by (rule arg_cong)
    then show ?thesis by simp
  qed
qed

lemma no_jpg_tilde:
  assumes "\<not> sublist ''.jpg'' x" and "\<not> sublist ''.jpg'' y"
  shows "\<not> sublist ''.jpg'' (x @ CHR ''~'' # y)"
proof
  assume "sublist ''.jpg'' (x @ CHR ''~'' # y)"
  then consider "sublist ''.jpg'' x" | "sublist ''.jpg'' (CHR ''~'' # y)"
    | xs1 xs2 where "''.jpg'' = xs1 @ xs2" "suffix xs1 x" "prefix xs2 (CHR ''~'' # y)"
    by (auto simp: sublist_append)
  then show False
  proof cases
    case 1 with assms show False by simp
  next
    case 2 with assms show False by (simp add: sublist_Cons_right)
  next
    case 3
    show False
    proof (cases xs2)
      case Nil
      with 3 have "suffix ''.jpg'' x" by simp
      with assms(1) show False by auto
    next
      case (Cons c r)
      with 3 have "c = CHR ''~''" by simp
      with Cons 3(1) have "CHR ''~'' \<in> set ''.jpg''" by (metis in_set_conv_decomp)
      then show False by simp
    qed
  qed
qed

lemma no_jpg_Cons: "\<not> sublist ''.jpg'' y \<Longrightarrow> c \<noteq> CHR ''.'' \<Longrightarrow> \<not> sublist ''.jpg'' (c # y)"
  by (simp add: sublist_Cons_right)

lemma digit_in_num_chars: "d < 10 \<Longrightarrow> digit_char d \<in> num_chars"
  using digit_char_in[of d] by (auto simp: num_chars_def)

lemma minus_in_num_chars: "CHR ''-'' \<in> num_chars"
  by (simp add: num_chars_def)

lemma dot_in_num_chars: "CHR ''.'' \<in> num_chars"
  by (simp add: num_chars_def)

lemma j_notin_num_chars: "CHR ''j'' \<notin> num_chars"
  by (simp add: num_chars_def)

lemma str_nat_chars: "set (str_nat n) \<subseteq> num_chars"
proof (induction n rule: str_nat.induct)
  case (1 n)
  show ?case
  proof (cases "n < 10")
    case True
    then have "str_nat n = [digit_char n]" by (subst str_nat.simps) simp
    with digit_in_num_chars[OF True] show ?thesis by simp
  next
    case False
    then have e: "str_nat n = str_nat (n div 10) @ [digit_char (n mod 10)]"
      by (subst str_nat.simps) simp
    have "digit_char (n mod 10) \<in> num_chars" by (rule digit_in_num_chars) simp
    with 1[OF False] e show ?thesis by simp
  qed
qed

lemma str_int_chars: "set (str_int i) \<subseteq> num_chars"
  using str_nat_chars[of "nat (- i)"] str_nat_chars[of "nat i"] minus_in_num_chars
  by (simp add: str_int_def)

lemma str_rounded_chars:
  assumes "str_rounded k = Inr s"
  shows "set s \<subseteq> num_chars"
proof -
  define a where "a = nat \<bar>k\<bar>"
  have d1: "digit_char (a mod 100 div 10) \<in> num_chars"
    by (rule digit_in_num_chars) simp
  have d2: "digit_char (a mod 100 mod 10) \<in> num_chars"
    by (rule digit_in_num_chars) simp
  from assms have "s = (if k < 0 then ''-'' else []) @ str_nat (a div 100) @ ''.'' @
             [digit_char (a mod 100 div 10)] @
             (if a mod 100 mod 10 = 0 then [] else [digit_char (a mod 100 mod 10)])"
    by (simp add: str_rounded_def Let_def a_def split: if_splits)
  then show ?thesis
    using d1 d2 str_nat_chars[of "a div 100"] minus_in_num_chars dot_in_num_chars
    by auto
qed

lemma round_number_chars:
  assumes "round_number n = Inr s"
  shows "set s \<subseteq> num_chars"
proof (cases "py_float n")
  case (Inl err)
  with assms show ?thesis by (simp add: round_number_def)
next
  case (Inr x)
  define k where "k = py_round2 x"
  from assms Inr have "s = str_int (int_of_rounded k) \<or> str_rounded k = Inr s"
    by (simp add: round_number_def Let_def k_def split: if_splits)
  then show ?thesis
    using str_int_chars str_rounded_chars by blast
qed

lemma round_field_chars: "round_field f = Inr s \<Longrightarrow> set s \<subseteq> num_chars"
  by (cases f) (simp_all add: round_number_chars)

lemma no_jpg_chars:
  assumes "set s \<subseteq> num_chars"
  shows "\<not> sublist ''.jpg'' s"
proof
  assume "sublist ''.jpg'' s"
  then have "set ''.jpg'' \<subseteq> set s" by (rule set_mono_sublist)
  then have "CHR ''j'' \<in> set s" by simp
  with assms j_notin_num_chars show False by blast
qed

lemma asset_name_thumb:
  assumes "\<not> sublist ''.jpg'' pid" "\<not> sublist ''.jpg'' d"
    and "set h \<subseteq> num_chars" "set p \<subseteq> num_chars"
  shows "thumb_filename (asset_name pid d h p z) = spec_thumb_name (asset_name pid d h p z)"
proof -
  define body where "body = pid @ ''~d'' @ d @ ''~h'' @ h @ ''~p'' @ p @ ''~z'' @ str_int z"
  have n: "asset_name pid d h p z = body @ ''.jpg''"
    by (simp add: asset_name_def body_def)
  have z: "\<not> sublist ''.jpg'' (str_int z)"
    by (rule no_jpg_chars[OF str_int_chars])
  have "\<not> sublist ''.jpg'' body"
    unfolding body_def
    using assms(1,2) no_jpg_chars[OF assms(3)] no_jpg_chars[OF assms(4)] z
    by (simp add: no_jpg_tilde no_jpg_Cons)
  then have "\<And>ps ss. body @ ''.jpg'' = ps @ ''.jpg'' @ ss \<Longrightarrow> ss = []"
    by (rule jpg_only_suffix)
  then have "py_replace ''.jpg'' ''~thumb.jpg'' (body @ ''.jpg'') = body @ ''~thumb.jpg''"
    by (intro py_replace_only_suffix) simp_all
  then show ?thesis
    by (simp add: thumb_filename_def spec_thumb_name_def n)
qed

lemma jpg_tile_name: "create_new_filename jpg_tile = Inr ''a.jpg~d2024-01~h0~p0~z0.jpg''"
  by (simp add: jpg_tile_def create_new_filename_def get_pano_id_def get_date_def
      empty_dict_def asset_name_def eval_defs)

lemma example_thumb:
  "thumb_filename ''ABC123~d2023-05~h90~p0~z1.jpg'' = ''ABC123~d2023-05~h90~p0~z1~thumb.jpg''"
  unfolding thumb_filename_def
  by (simp add: py_replace_skip py_replace_Nil py_replace_match[of "''.jpg''", simplified])

lemma create_new_filename_parts:
  assumes "create_new_filename t = Inr name"
  shows "\<exists>pid d h p z. get_pano_id t = Inr (Some pid) \<and> get_date t = Inr d
           \<and> round_field (heading t) = Inr h \<and> round_field (pitch t) = Inr p
           \<and> int_field (zoom t) = Inr z \<and> name = asset_name pid d h p z"
  using assms
  by (auto simp: create_new_filename_def split: sum.splits option.splits)

text \<open>
  Claim C2, as amended. The thumbnail name is the full name with every occurrence of
  \<open>.jpg\<close> replaced. Whenever neither the panorama identifier nor the date contains
  \<open>.jpg\<close>, the only occurrence is the extension, and the thumbnail name is the full name
  with \<open>~thumb\<close> inserted immediately before it.
\<close>

theorem thumb_name_inserts_suffix:
  assumes "create_new_filename t = Inr name"
    and "get_pano_id t = Inr (Some pid)" and "get_date t = Inr d"
    and "\<not> sublist ''.jpg'' pid" and "\<not> sublist ''.jpg'' d"
  shows "thumb_filename name = spec_thumb_name name"
proof -
  from create_new_filename_parts[OF assms(1)] assms(2,3)
  obtain h p z where hp: "round_field (heading t) = Inr h" "round_field (pitch t) = Inr p"
    and n: "name = asset_name pid d h p z"
    by auto
  show ?thesis
    unfolding n
    by (rule asset_name_thumb[OF assms(4,5) round_field_chars[OF hp(1)] round_field_chars[OF hp(2)]])
qed


text \<open>
  Claim C2 as stated fails for an identifier that contains \<open>.jpg\<close>: for the identifier
  \<open>a.jpg\<close> the inner occurrence is replaced too, and the thumbnail name differs from the
  full name with \<open>~thumb\<close> inserted before the extension.
\<close>

theorem thumb_name_replaces_every_jpg:
  "create_new_filename jpg_tile = Inr ''a.jpg~d2024-01~h0~p0~z0.jpg''
   \<and> thumb_filename ''a.jpg~d2024-01~h0~p0~z0.jpg'' = ''a~thumb.jpg~d2024-01~h0~p0~z0~thumb.jpg''
   \<and> spec_thumb_name ''a.jpg~d2024-01~h0~p0~z0.jpg'' = ''a.jpg~d2024-01~h0~p0~z0~thumb.jpg''
   \<and> thumb_filename ''a.jpg~d2024-01~h0~p0~z0.jpg'' \<noteq> spec_thumb_name ''a.jpg~d2024-01~h0~p0~z0.jpg''"
proof -
  have c: "spec_thumb_name ''a.jpg~d2024-01~h0~p0~z0.jpg'' = ''a.jpg~d2024-01~h0~p0~z0~thumb.jpg''"
    by (simp add: spec_thumb_name_def)
  show ?thesis using jpg_tile_name thumb_filename_jpg_tile c by simp
qed

theorem thumb_name_inserts_suffix_witness:
  "create_new_filename example_tile = Inr ''ABC123~d2023-05~h90~p0~z1.jpg''
   \<and> get_pano_id example_tile = Inr (Some ''ABC123'') \<and> get_date example_tile = Inr ''2023-05''
   \<and> \<not> sublist ''.jpg'' ''ABC123'' \<and> \<not> sublist ''.jpg'' ''2023-05''
   \<and> thumb_filename ''ABC123~d2023-05~h90~p0~z1.jpg'' = spec_thumb_name ''ABC123~d2023-05~h90~p0~z1.jpg''"
proof -
  have p: "get_pano_id example_tile = Inr (Some ''ABC123'')"
    by (simp add: get_pano_id_def example_tile_def)
  have d: "get_date example_tile = Inr ''2023-05''"
    by (simp add: get_date_def example_tile_def)
  have n1: "\<not> sublist ''.jpg'' ''ABC123''" by (simp add: sublist_Cons_right)
  have n2: "\<not> sublist ''.jpg'' ''2023-05''" by (simp add: sublist_Cons_right)
  from thumb_name_inserts_suffix[OF example_tile_name p d n1 n2] example_tile_name p d n1 n2
  show ?thesis by simp
qed

text \<open>
  Claim C5. For every non-empty list of puzzle files and every set of stored names,
  \<open>dry_run\<close> computes missing as expected minus actual and orphaned as actual minus
  expected; \<open>prune_orphaned_images\<close> finds the same orphaned set; missing and orphaned
  are disjoint, missing is disjoint from actual, orphaned is disjoint from expected.
  (With no puzzle file at all both functions return before any set is computed, see
  \<open>reconciliation_without_files\<close>.)
\<close>

theorem reconciliation_sets:
  "json_files \<noteq> [] \<Longrightarrow>
     (\<exists>missing orphaned.
        dry_run json_files actual = Some (missing, orphaned)
        \<and> missing = expected_of_files json_files {} - actual
        \<and> orphaned = actual - expected_of_files json_files {}
        \<and> prune_orphaned_images json_files actual = Some orphaned
        \<and> missing \<inter> orphaned = {}
        \<and> missing \<inter> actual = {}
        \<and> orphaned \<inter> expected_of_files json_files {} = {})"
  by (auto simp: dry_run_def prune_orphaned_images_def Let_def)

lemma reconciliation_without_files:
  "dry_run [] actual = None \<and> prune_orphaned_images [] actual = None"
  by (simp add: dry_run_def prune_orphaned_images_def)

lemma expected_example:
  "expected_of_files [[example_tile]] {} =
     {''ABC123~d2023-05~h90~p0~z1~thumb.jpg'', ''ABC123~d2023-05~h90~p0~z1.jpg''}"
proof -
  have p: "get_pano_id example_tile = Inr (Some ''ABC123'')"
    by (simp add: get_pano_id_def example_tile_def)
  show ?thesis by (simp add: p example_tile_name example_thumb)
qed

theorem reconciliation_sets_witness:
  "[[example_tile]] \<noteq> []
   \<and> dry_run [[example_tile]] {''ABC123~d2023-05~h90~p0~z1.jpg'', ''stale.jpg''} =
       Some ({''ABC123~d2023-05~h90~p0~z1~thumb.jpg''}, {''stale.jpg''})
   \<and> prune_orphaned_images [[example_tile]] {''ABC123~d2023-05~h90~p0~z1.jpg'', ''stale.jpg''} =
       Some {''stale.jpg''}
   \<and> {''ABC123~d2023-05~h90~p0~z1~thumb.jpg''} \<inter> {''stale.jpg''} = ({} :: string set)"
proof -
  have n: "[[example_tile]] \<noteq> []" by simp
  have d: "dry_run [[example_tile]] {''ABC123~d2023-05~h90~p0~z1.jpg'', ''stale.jpg''} =
     Some ({''ABC123~d2023-05~h90~p0~z1~thumb.jpg''}, {''stale.jpg''})"
    unfolding dry_run_def Let_def expected_example by auto
  from reconciliation_sets[OF n, of "{''ABC123~d2023-05~h90~p0~z1.jpg'', ''stale.jpg''}"] d
  show ?thesis by auto
qed

subsection \<open>Acquisition\<close>

lemma get_date_extra: "get_date t = Inr d \<Longrightarrow> extra t \<noteq> Null"
  by (auto simp: get_date_def)

lemma create_new_filename_checked:
  assumes "create_new_filename t = Inr name"
  shows "\<exists>pid. checked_pano_id t = Some pid"
proof -
  from create_new_filename_parts[OF assms] obtain pid d where
    p: "get_pano_id t = Inr (Some pid)" and d: "get_date t = Inr d" by blast
  from checked_pano_id_get[OF get_date_extra[OF d]] p
  have "Inr (checked_pano_id t) = (Inr (Some pid) :: pyerror + string option)" by simp
  then have "checked_pano_id t = Some pid" by simp
  then show ?thesis ..
qed

lemma try_urls_single:
  "try_urls w [url] =
     (case http_get w url of
        HttpRaises \<Rightarrow> None
      | HttpResponse status_code content_type content \<Rightarrow>
          if status_code = 200 \<and> sublist ''image'' content_type then Some (url, content)
          else None,
      [DirectRequest url])"
  by (simp split: http_outcome.splits)

lemma pano_img_url_nonempty: "pano_img_url name \<noteq> []"
  by (simp add: pano_img_url_def)

lemma download_pano_image_direct_named:
  assumes "create_new_filename t = Inr name"
  shows "download_pano_image_direct w t =
     (Inr (if direct_succeeds w name then Some [name, thumb_filename name] else None),
      [DirectRequest (pano_img_url name)])"
proof -
  from create_new_filename_parts[OF assms] obtain pid d h p z where
    parts: "get_pano_id t = Inr (Some pid)" "get_date t = Inr d"
      "round_field (heading t) = Inr h" "round_field (pitch t) = Inr p"
      "int_field (zoom t) = Inr z" and n: "name = asset_name pid d h p z"
    by blast
  have u: "try_direct_download w pid h p z d = try_urls w [pano_img_url name]"
    by (simp add: try_direct_download_def pano_img_url_def n)
  show ?thesis
    unfolding download_pano_image_direct_def
    using pano_img_url_nonempty[of name]
    by (simp add: parts u try_urls_single assms direct_succeeds_def split: http_outcome.splits)
qed

lemma browser_body_named:
  assumes "create_new_filename t = Inr name"
  shows "browser_body w t =
     (new_page_ok w,
      if new_page_ok w \<and> set_viewport_ok w \<and> goto_ok w \<and> wait_for_selector_ok w \<and>
         query_selector w = Element \<and> capture_ok w
      then Some [name, thumb_filename name] else None)"
proof -
  from create_new_filename_checked[OF assms] obtain pid where "checked_pano_id t = Some pid" ..
  then show ?thesis
    by (simp add: browser_body_def assms Let_def split: query_outcome.splits)
qed

lemma get_browser_nonempty:
  "available pool \<noteq> [] \<Longrightarrow>
   get_browser pool = Some (hd (available pool), pool\<lparr>available := tl (available pool)\<rparr>)"
  by (cases "available pool") (simp_all add: get_browser_def)

lemma download_pano_image_cases:
  assumes "create_new_filename t = Inr name" and "available pool \<noteq> []"
  shows "download_pano_image pool w t skip =
     (if \<not> skip \<and> direct_succeeds w name
      then (Returns (Some [name, thumb_filename name]), pool, [DirectRequest (pano_img_url name)])
      else
        (if \<not> new_page_ok w then Raises UnboundLocalError
         else if \<not> page_close_ok w then Raises PlaywrightError
         else Returns (if browser_succeeds w then Some [name, thumb_filename name] else None),
         if new_page_ok w \<and> page_close_ok w
         then pool\<lparr>available := tl (available pool) @ [hd (available pool)]\<rparr>
         else pool\<lparr>available := tl (available pool)\<rparr>,
         (if skip then [] else [DirectRequest (pano_img_url name)]) @
         GetBrowser (hd (available pool)) #
         (if new_page_ok w \<and> page_close_ok w then [ReturnBrowser (hd (available pool))] else [])))"
  unfolding download_pano_image_def
  by (simp add: download_pano_image_direct_named[OF assms(1)] browser_body_named[OF assms(1)]
      get_browser_nonempty[OF assms(2)] return_browser_def browser_succeeds_def)

lemma direct_requests_simps:
  "direct_requests [] = []"
  "direct_requests (DirectRequest url # ev) = url # direct_requests ev"
  "direct_requests (GetBrowser b # ev) = direct_requests ev"
  "direct_requests (ReturnBrowser b # ev) = direct_requests ev"
  "direct_requests (Processing i n # ev) = direct_requests ev"
  by (simp_all add: direct_requests_def map_filter_simps)

lemma browser_attempts_simps:
  "browser_attempts [] = 0"
  "browser_attempts (DirectRequest url # ev) = browser_attempts ev"
  "browser_attempts (GetBrowser b # ev) = Suc (browser_attempts ev)"
  "browser_attempts (ReturnBrowser b # ev) = browser_attempts ev"
  "browser_attempts (Processing i n # ev) = browser_attempts ev"
  by (simp_all add: browser_attempts_def)

text \<open>
  Claim C3, as amended. For a tile that has a name, with a browser available: unless
  direct download is disabled, exactly one request goes to the pano/img URL of the name,
  before anything else; the direct tier succeeds only on status 200 with an image content
  type; the browser is taken from the pool exactly once when the direct tier fails or is
  disabled, and not at all when it succeeds; filenames are returned exactly when one of
  the two tiers succeeds, so a tile whose browser attempt fails too returns none.
\<close>

theorem acquisition_sequence:
  assumes "create_new_filename t = Inr name" and "available pool \<noteq> []"
    and "download_pano_image pool w t skip = (out, pool', ev)"
  shows "direct_requests ev = (if skip then [] else [pano_img_url name])
    \<and> browser_attempts ev = (if \<not> skip \<and> direct_succeeds w name then 0 else 1)
    \<and> ev = map DirectRequest (direct_requests ev) @ filter (\<lambda>e. \<not> is_DirectRequest e) ev
    \<and> (direct_succeeds w name \<longrightarrow>
         (\<exists>content_type content.
            http_get w (pano_img_url name) = HttpResponse 200 content_type content
            \<and> sublist ''image'' content_type))
    \<and> (out = Returns (Some [name, thumb_filename name])
         \<longleftrightarrow> (\<not> skip \<and> direct_succeeds w name) \<or> browser_succeeds w)
    \<and> (\<forall>names. out = Returns (Some names) \<longrightarrow> names = [name, thumb_filename name])"
proof -
  note c = download_pano_image_cases[OF assms(1,2), of w skip, unfolded assms(3)]
  have d: "direct_succeeds w name \<longrightarrow>
         (\<exists>content_type content.
            http_get w (pano_img_url name) = HttpResponse 200 content_type content
            \<and> sublist ''image'' content_type)"
    by (auto simp: direct_succeeds_def split: http_outcome.splits)
  show ?thesis
    using c d
    by (auto simp: direct_requests_simps browser_attempts_simps browser_succeeds_def
        split: if_splits)
qed


lemma pool2_available: "available pool2 = [0, 1]"
  by (simp add: pool2_def initialize_def new_pool_def upt_rec)

lemma all_ok_direct: "direct_succeeds all_ok name"
  by (simp add: direct_succeeds_def all_ok_def sublist_Cons_right)

lemma not_found_direct: "\<not> direct_succeeds not_found name"
  by (simp add: direct_succeeds_def not_found_def all_ok_def)

lemma timed_out_direct: "\<not> direct_succeeds timed_out name"
  by (simp add: direct_succeeds_def timed_out_def not_found_def all_ok_def)

lemma page_fails_direct: "\<not> direct_succeeds page_fails name"
  by (simp add: direct_succeeds_def page_fails_def not_found_def all_ok_def)

lemma all_ok_fields: "new_page_ok all_ok" "page_close_ok all_ok" "browser_succeeds all_ok"
  by (simp_all add: browser_succeeds_def all_ok_def)

lemma timed_out_fields:
  "new_page_ok timed_out" "page_close_ok timed_out" "\<not> browser_succeeds timed_out"
  by (simp_all add: browser_succeeds_def timed_out_def not_found_def all_ok_def)

lemma page_fails_fields: "\<not> new_page_ok page_fails"
  by (simp add: page_fails_def not_found_def all_ok_def)

text \<open>
  Claim C3 as stated fails when direct download is disabled (\<open>--no-direct\<close>): the browser
  tier runs although no direct request was made, even in a world where the direct fetch
  would have succeeded.
\<close>

theorem browser_without_direct_attempt:
  "download_pano_image pool2 all_ok example_tile True =
     (Returns (Some [''ABC123~d2023-05~h90~p0~z1.jpg'', ''ABC123~d2023-05~h90~p0~z1~thumb.jpg'']),
      pool2\<lparr>available := [1, 0]\<rparr>, [GetBrowser 0, ReturnBrowser 0])
   \<and> direct_requests [GetBrowser 0, ReturnBrowser 0] = []
   \<and> browser_attempts [GetBrowser 0, ReturnBrowser 0] = 1"
proof -
  have a: "available pool2 \<noteq> []" by (simp add: pool2_available)
  show ?thesis
    using download_pano_image_cases[OF example_tile_name a, of all_ok True]
    by (simp add: pool2_available example_thumb all_ok_fields
        direct_requests_simps browser_attempts_simps)
qed

theorem acquisition_sequence_witness:
  "create_new_filename example_tile = Inr ''ABC123~d2023-05~h90~p0~z1.jpg''
   \<and> available pool2 \<noteq> []
   \<and> download_pano_image pool2 timed_out example_tile False =
       (Returns None, pool2\<lparr>available := [1, 0]\<rparr>,
        [DirectRequest (pano_img_url ''ABC123~d2023-05~h90~p0~z1.jpg''), GetBrowser 0,
         ReturnBrowser 0])
   \<and> direct_requests
        [DirectRequest (pano_img_url ''ABC123~d2023-05~h90~p0~z1.jpg''), GetBrowser 0,
         ReturnBrowser 0] = [pano_img_url ''ABC123~d2023-05~h90~p0~z1.jpg'']
   \<and> browser_attempts
        [DirectRequest (pano_img_url ''ABC123~d2023-05~h90~p0~z1.jpg''), GetBrowser 0,
         ReturnBrowser 0] = 1"
proof -
  have a: "available pool2 \<noteq> []" by (simp add: pool2_available)
  have d: "download_pano_image pool2 timed_out example_tile False =
       (Returns None, pool2\<lparr>available := [1, 0]\<rparr>,
        [DirectRequest (pano_img_url ''ABC123~d2023-05~h90~p0~z1.jpg''), GetBrowser 0,
         ReturnBrowser 0])"
    using download_pano_image_cases[OF example_tile_name a, of timed_out False]
    by (simp add: pool2_available timed_out_direct timed_out_fields)
  from acquisition_sequence[OF example_tile_name a d] example_tile_name a d
  show ?thesis by (simp add: timed_out_direct)
qed

text \<open>
  Claim C10 fails on the code. After a 404 from the direct tier the browser is taken from
  a pool of two; \<open>browser.new_page()\<close> raises; the function ends with
  \<open>UnboundLocalError\<close> and the pool is left with one browser: the acquired one is never
  returned.
\<close>

theorem browser_lost_when_page_cannot_open:
  "download_pano_image pool2 page_fails example_tile False =
     (Raises UnboundLocalError, pool2\<lparr>available := [1]\<rparr>,
      [DirectRequest (pano_img_url ''ABC123~d2023-05~h90~p0~z1.jpg''), GetBrowser 0])
   \<and> available pool2 = [0, 1]"
proof -
  have a: "available pool2 \<noteq> []" by (simp add: pool2_available)
  show ?thesis
    using download_pano_image_cases[OF example_tile_name a, of page_fails False]
    by (simp add: pool2_available page_fails_direct page_fails_fields)
qed

lemma browser_returned_when_page_opens_and_closes:
  assumes "create_new_filename t = Inr name" and "available pool \<noteq> []"
    and "new_page_ok w" and "page_close_ok w"
  shows "\<exists>r pool' ev. download_pano_image pool w t skip = (Returns r, pool', ev)
           \<and> length (available pool') = length (available pool)
           \<and> set (available pool') = set (available pool)
           \<and> filter is_Processing ev = []"
proof (cases "available pool")
  case Nil
  with assms(2) show ?thesis by simp
next
  case (Cons b rest)
  show ?thesis
    unfolding download_pano_image_cases[OF assms(1,2)]
    using assms(3,4) Cons by auto
qed

subsection \<open>Processing puzzle files\<close>

lemma classify_named:
  assumes "create_new_filename t = Inr base"
  shows "classify disk t =
     (if base \<notin> disk then Download
      else if thumb_filename base \<notin> disk then ThumbOnly else Skip)"
proof -
  from create_new_filename_checked[OF assms] obtain pid where "checked_pano_id t = Some pid" ..
  then show ?thesis by (simp add: classify_def assms Let_def)
qed

lemma classify_Download_named:
  "classify disk t = Download \<Longrightarrow> \<exists>name. create_new_filename t = Inr name"
  by (auto simp: classify_def split: option.splits sum.splits)

lemma classify_no_id: "checked_pano_id t = None \<Longrightarrow> classify disk t = Skip"
  by (simp add: classify_def)

lemma no_id_codec:
  assumes "checked_pano_id t = None"
  shows "(\<exists>err. create_new_filename t = Inl err)
       \<and> (extra t \<noteq> Null \<longrightarrow> create_new_filename t = Inl ValueError)"
proof (cases "extra t")
  case Null
  with assms have "get_pano_id t = Inl AttributeError"
    by (simp add: get_pano_id_def checked_pano_id_def split: option.splits)
  then show ?thesis using Null by (simp add: create_new_filename_def)
next
  case Absent
  then have "get_pano_id t = Inr (checked_pano_id t)" by (simp add: checked_pano_id_get)
  with assms show ?thesis by (simp add: create_new_filename_def)
next
  case (Val ex)
  then have "get_pano_id t = Inr (checked_pano_id t)" by (simp add: checked_pano_id_get)
  with assms show ?thesis by (simp add: create_new_filename_def)
qed

lemma no_id_expected:
  assumes "checked_pano_id t = None" and "extra t \<noteq> Null"
  shows "expected_of_tiles (t # ts) acc = expected_of_tiles ts acc"
  using assms by (simp add: checked_pano_id_get)

lemma process_tiles_alt:
  "process_json_file_async pool skip disk (Tiles tiles) =
     (if needed_tiles disk tiles = [] \<and> thumb_only_tiles disk tiles = []
      then (Returns [], pool, [])
      else
        (case download_needed pool skip 0 (length (needed_tiles disk tiles))
                (needed_tiles disk tiles) of
           (Raises err, pool1, ev) \<Rightarrow> (Returns [], pool1, ev)
         | (Blocks, pool1, ev) \<Rightarrow> (Blocks, pool1, ev)
         | (Returns downloaded, pool1, ev) \<Rightarrow>
             (Returns (downloaded @ generate_thumbs (thumb_only_tiles disk tiles)), pool1, ev)))"
  by (cases "tiles = []")
     (simp_all add: process_json_file_async_def needed_tiles_def thumb_only_tiles_def)

lemma no_id_process:
  assumes "checked_pano_id t = None"
  shows "process_json_file_async pool skip disk (Tiles (before @ (t, w) # after)) =
         process_json_file_async pool skip disk (Tiles (before @ after))"
proof -
  have n: "needed_tiles disk (before @ (t, w) # after) = needed_tiles disk (before @ after)"
    by (simp add: needed_tiles_def classify_no_id[OF assms])
  have th: "thumb_only_tiles disk (before @ (t, w) # after) = thumb_only_tiles disk (before @ after)"
    by (simp add: thumb_only_tiles_def classify_no_id[OF assms])
  show ?thesis
    by (simp only: process_tiles_alt n th)
qed

text \<open>
  Claim C4. A tile record with no identifier at the top level and none under \<open>extra\<close>
  makes the codec raise instead of returning a name, with \<open>ValueError\<close> (the missing
  identifier error) whenever \<open>extra\<close> is absent or an object. Such a tile is skipped:
  processing a puzzle file with the tile in it is processing the file without it, and the
  expected-file loop goes on to the remaining tiles.
\<close>

theorem missing_identifier_is_skipped:
  assumes "checked_pano_id t = None"
  shows "(\<exists>err. create_new_filename t = Inl err)
       \<and> (extra t \<noteq> Null \<longrightarrow> create_new_filename t = Inl ValueError)
       \<and> classify disk t = Skip
       \<and> process_json_file_async pool skip disk (Tiles (before @ (t, w) # after)) =
           process_json_file_async pool skip disk (Tiles (before @ after))
       \<and> (extra t \<noteq> Null \<longrightarrow> expected_of_tiles (t # ts) acc = expected_of_tiles ts acc)"
  using no_id_codec[OF assms] classify_no_id[OF assms] no_id_process[OF assms]
    no_id_expected[OF assms]
  by blast

theorem missing_identifier_is_skipped_witness:
  "checked_pano_id no_id_tile = None
   \<and> create_new_filename no_id_tile = Inl ValueError
   \<and> classify {} no_id_tile = Skip
   \<and> process_json_file_async pool2 False {} (Tiles ([] @ (no_id_tile, all_ok) # [(example_tile, all_ok)])) =
       process_json_file_async pool2 False {} (Tiles ([] @ [(example_tile, all_ok)]))"
proof -
  have c: "checked_pano_id no_id_tile = None"
    by (simp add: checked_pano_id_def no_id_tile_def)
  have e: "extra no_id_tile \<noteq> Null" by (simp add: no_id_tile_def)
  from missing_identifier_is_skipped[OF c, of "{}" pool2 False "[]" all_ok "[(example_tile, all_ok)]"] c e
  show ?thesis by simp
qed

text \<open>
  Claim C9. In the local-disk variant a tile with a name is sorted by what exists on
  disk. Both files exist: the tile is skipped, nothing is downloaded. Only the full image
  exists: the thumbnail is regenerated from it, with no request and no browser. The full
  image is missing, whether or not the thumbnail exists: the tile is downloaded.
\<close>

theorem dedup_by_filename:
  assumes "create_new_filename t = Inr base"
  shows "classify disk t =
           (if base \<notin> disk then Download
            else if thumb_filename base \<notin> disk then ThumbOnly else Skip)
       \<and> ((t, w) \<in> set (needed_tiles disk tiles) \<longleftrightarrow> (t, w) \<in> set tiles \<and> base \<notin> disk)
       \<and> ((t, w) \<in> set (thumb_only_tiles disk tiles) \<longleftrightarrow>
            (t, w) \<in> set tiles \<and> base \<in> disk \<and> thumb_filename base \<notin> disk)
       \<and> (base \<in> disk \<and> thumb_filename base \<in> disk \<longrightarrow>
            process_json_file_async pool skip disk (Tiles [(t, w)]) = (Returns [], pool, []))
       \<and> (base \<in> disk \<and> thumb_filename base \<notin> disk \<longrightarrow>
            process_json_file_async pool skip disk (Tiles [(t, w)]) =
              (Returns (if thumb_from_full_ok w then [thumb_filename base] else []), pool, []))
       \<and> (base \<notin> disk \<longrightarrow>
            (\<exists>out pool' ev. download_pano_image pool w t skip = (out, pool', ev)
               \<and> process_json_file_async pool skip disk (Tiles [(t, w)]) =
                   (case out of
                      Returns filenames \<Rightarrow> Returns (case filenames of None \<Rightarrow> [] | Some fs \<Rightarrow> fs)
                    | Raises err \<Rightarrow> Returns []
                    | Blocks \<Rightarrow> Blocks,
                    pool', Processing 1 1 # ev)))"
proof -
  note c = classify_named[OF assms, of disk]
  have 1: "(t, w) \<in> set (needed_tiles disk tiles) \<longleftrightarrow> (t, w) \<in> set tiles \<and> base \<notin> disk"
    by (auto simp: needed_tiles_def c split: if_splits)
  have 2: "(t, w) \<in> set (thumb_only_tiles disk tiles) \<longleftrightarrow>
            (t, w) \<in> set tiles \<and> base \<in> disk \<and> thumb_filename base \<notin> disk"
    by (auto simp: thumb_only_tiles_def c split: if_splits)
  have 3: "base \<in> disk \<and> thumb_filename base \<in> disk \<longrightarrow>
            process_json_file_async pool skip disk (Tiles [(t, w)]) = (Returns [], pool, [])"
    by (simp add: process_json_file_async_def needed_tiles_def thumb_only_tiles_def c)
  have 4: "base \<in> disk \<and> thumb_filename base \<notin> disk \<longrightarrow>
            process_json_file_async pool skip disk (Tiles [(t, w)]) =
              (Returns (if thumb_from_full_ok w then [thumb_filename base] else []), pool, [])"
    by (simp add: process_json_file_async_def needed_tiles_def thumb_only_tiles_def c assms)
  have 5: "base \<notin> disk \<longrightarrow>
            (\<exists>out pool' ev. download_pano_image pool w t skip = (out, pool', ev)
               \<and> process_json_file_async pool skip disk (Tiles [(t, w)]) =
                   (case out of
                      Returns filenames \<Rightarrow> Returns (case filenames of None \<Rightarrow> [] | Some fs \<Rightarrow> fs)
                    | Raises err \<Rightarrow> Returns []
                    | Blocks \<Rightarrow> Blocks,
                    pool', Processing 1 1 # ev))"
  proof
    assume b: "base \<notin> disk"
    obtain out pool' ev where d: "download_pano_image pool w t skip = (out, pool', ev)"
      by (metis prod_cases3)
    have "process_json_file_async pool skip disk (Tiles [(t, w)]) =
                   (case out of
                      Returns filenames \<Rightarrow> Returns (case filenames of None \<Rightarrow> [] | Some fs \<Rightarrow> fs)
                    | Raises err \<Rightarrow> Returns []
                    | Blocks \<Rightarrow> Blocks,
                    pool', Processing 1 1 # ev)"
      using b
      by (cases out)
         (simp_all add: process_json_file_async_def needed_tiles_def thumb_only_tiles_def c d)
    with d show "\<exists>out pool' ev. download_pano_image pool w t skip = (out, pool', ev)
               \<and> process_json_file_async pool skip disk (Tiles [(t, w)]) =
                   (case out of
                      Returns filenames \<Rightarrow> Returns (case filenames of None \<Rightarrow> [] | Some fs \<Rightarrow> fs)
                    | Raises err \<Rightarrow> Returns []
                    | Blocks \<Rightarrow> Blocks,
                    pool', Processing 1 1 # ev)"
      by blast
  qed
  from c 1 2 3 4 5 show ?thesis by blast
qed

theorem dedup_by_filename_witness:
  "create_new_filename example_tile = Inr ''ABC123~d2023-05~h90~p0~z1.jpg''
   \<and> classify {''ABC123~d2023-05~h90~p0~z1.jpg''} example_tile = ThumbOnly
   \<and> process_json_file_async pool2 False {''ABC123~d2023-05~h90~p0~z1.jpg''}
        (Tiles [(example_tile, all_ok)]) =
       (Returns [''ABC123~d2023-05~h90~p0~z1~thumb.jpg''], pool2, [])"
proof -
  have t: "thumb_from_full_ok all_ok" by (simp add: all_ok_def)
  from dedup_by_filename[OF example_tile_name, of "{''ABC123~d2023-05~h90~p0~z1.jpg''}"
      all_ok "[]" pool2 False]
    example_tile_name t
  show ?thesis by (simp add: example_thumb)
qed

lemma download_needed_ok:
  assumes "\<forall>(t, w) \<in> set jobs.
             (\<exists>name. create_new_filename t = Inr name) \<and> new_page_ok w \<and> page_close_ok w"
    and "available pool \<noteq> []"
  shows "\<exists>downloaded pool' ev.
           download_needed pool skip i n jobs = (Returns downloaded, pool', ev)
           \<and> length (available pool') = length (available pool)
           \<and> length (filter is_Processing ev) = length jobs"
  using assms
proof (induction jobs arbitrary: pool i)
  case Nil
  then show ?case by simp
next
  case (Cons job jobs)
  obtain t w where job: "job = (t, w)" by (cases job)
  from Cons.prems(1) job obtain name where
    name: "create_new_filename t = Inr name" and ok: "new_page_ok w" "page_close_ok w"
    by auto
  from browser_returned_when_page_opens_and_closes[OF name Cons.prems(2) ok, of skip]
  obtain r pool1 ev1 where
    d: "download_pano_image pool w t skip = (Returns r, pool1, ev1)"
    and l1: "length (available pool1) = length (available pool)"
    and p1: "filter is_Processing ev1 = []"
    by blast
  from l1 Cons.prems(2) have a1: "available pool1 \<noteq> []" by auto
  from Cons.prems(1) have rest: "\<forall>(t, w) \<in> set jobs.
             (\<exists>name. create_new_filename t = Inr name) \<and> new_page_ok w \<and> page_close_ok w"
    by simp
  from Cons.IH[OF rest a1, of "Suc i"]
  obtain d2 pool2 ev2 where
    r: "download_needed pool1 skip (Suc i) n jobs = (Returns d2, pool2, ev2)"
    and l2: "length (available pool2) = length (available pool1)"
    and p2: "length (filter is_Processing ev2) = length jobs"
    by blast
  show ?case
    by (simp add: job d r l1 l2 p1 p2)
qed

lemma process_file_ok:
  assumes "\<forall>(t, w) \<in> set (tiles_of json_file). new_page_ok w \<and> page_close_ok w"
    and "available pool \<noteq> []"
  shows "\<exists>result pool' ev.
           process_json_file_async pool skip disk json_file = (Returns result, pool', ev)
           \<and> length (available pool') = length (available pool)
           \<and> length (filter is_Processing ev) = length (needed_tiles disk (tiles_of json_file))"
proof (cases json_file)
  case Unreadable
  then show ?thesis by (simp add: process_json_file_async_def tiles_of_def needed_tiles_def)
next
  case UnknownStructure
  then show ?thesis by (simp add: process_json_file_async_def tiles_of_def needed_tiles_def)
next
  case (Tiles tiles)
  have n: "\<forall>(t, w) \<in> set (needed_tiles disk tiles).
             (\<exists>name. create_new_filename t = Inr name) \<and> new_page_ok w \<and> page_close_ok w"
    using assms(1) Tiles
    by (auto simp: needed_tiles_def tiles_of_def dest: classify_Download_named)
  from download_needed_ok[OF n assms(2), of skip 0 "length (needed_tiles disk tiles)"]
  obtain d pool1 ev where
    r: "download_needed pool skip 0 (length (needed_tiles disk tiles)) (needed_tiles disk tiles) =
          (Returns d, pool1, ev)"
    and l: "length (available pool1) = length (available pool)"
    and p: "length (filter is_Processing ev) = length (needed_tiles disk tiles)"
    by blast
  show ?thesis
  proof (cases "needed_tiles disk tiles = [] \<and> thumb_only_tiles disk tiles = []")
    case True
    then show ?thesis using Tiles by (simp add: process_tiles_alt tiles_of_def)
  next
    case False
    then show ?thesis using Tiles r l p by (simp add: process_tiles_alt tiles_of_def)
  qed
qed

lemma process_files_ok:
  assumes "\<forall>(disk, json_file) \<in> set json_files.
             \<forall>(t, w) \<in> set (tiles_of json_file). new_page_ok w \<and> page_close_ok w"
    and "available pool \<noteq> []"
  shows "\<exists>all_downloaded pool' ev.
           process_files pool skip json_files = (Returns all_downloaded, pool', ev)
           \<and> length (available pool') = length (available pool)
           \<and> length (filter is_Processing ev) =
               (\<Sum>(disk, json_file) \<leftarrow> json_files. length (needed_tiles disk (tiles_of json_file)))"
  using assms
proof (induction json_files arbitrary: pool)
  case Nil
  then show ?case by simp
next
  case (Cons df json_files)
  obtain disk json_file where df: "df = (disk, json_file)" by (cases df)
  from Cons.prems(1) df
  have f: "\<forall>(t, w) \<in> set (tiles_of json_file). new_page_ok w \<and> page_close_ok w" by simp
  from process_file_ok[OF f Cons.prems(2), of skip disk]
  obtain result pool1 ev1 where
    r1: "process_json_file_async pool skip disk json_file = (Returns result, pool1, ev1)"
    and l1: "length (available pool1) = length (available pool)"
    and p1: "length (filter is_Processing ev1) = length (needed_tiles disk (tiles_of json_file))"
    by blast
  from l1 Cons.prems(2) have a1: "available pool1 \<noteq> []" by auto
  from Cons.prems(1) have rest: "\<forall>(disk, json_file) \<in> set json_files.
             \<forall>(t, w) \<in> set (tiles_of json_file). new_page_ok w \<and> page_close_ok w"
    by simp
  from Cons.IH[OF rest a1]
  obtain all2 pool2 ev2 where
    r2: "process_files pool1 skip json_files = (Returns all2, pool2, ev2)"
    and l2: "length (available pool2) = length (available pool1)"
    and p2: "length (filter is_Processing ev2) =
               (\<Sum>(disk, json_file) \<leftarrow> json_files. length (needed_tiles disk (tiles_of json_file)))"
    by blast
  show ?case
    by (simp add: df r1 r2 l1 l2 p1 p2)
qed

text \<open>
  Claim C8. In a batch where every per-tile failure is a missing identifier, a failed or
  rejected direct fetch, a navigation, selector or render time-out, a missing pano
  element or a failure to store (the browser itself can still open and close a page),
  with a browser in the pool at the start: the run over all puzzle files returns, every
  tile that needs a download in every file is processed, and the pool keeps its size.
\<close>

theorem per_tile_errors_never_abort:
  assumes "\<forall>(disk, json_file) \<in> set json_files.
             \<forall>(t, w) \<in> set (tiles_of json_file). new_page_ok w \<and> page_close_ok w"
    and "available pool \<noteq> []"
  shows "\<exists>all_downloaded pool' ev.
           process_files pool skip json_files = (Returns all_downloaded, pool', ev)
           \<and> length (available pool') = length (available pool)
           \<and> length (filter is_Processing ev) =
               (\<Sum>(disk, json_file) \<leftarrow> json_files. length (needed_tiles disk (tiles_of json_file)))"
  using assms by (rule process_files_ok)

lemma example_batch_ok:
  "\<forall>(disk, json_file) \<in> set example_batch.
     \<forall>(t, w) \<in> set (tiles_of json_file). new_page_ok w \<and> page_close_ok w"
  by (simp add: example_batch_def tiles_of_def timed_out_def not_found_def all_ok_def)

lemma example_batch_needed:
  "(\<Sum>(disk, json_file) \<leftarrow> example_batch. length (needed_tiles disk (tiles_of json_file))) = 3"
  by (simp add: example_batch_def tiles_of_def needed_tiles_def
      classify_named[OF example_tile_name] classify_named[OF jpg_tile_name])

theorem per_tile_errors_never_abort_witness:
  "available pool2 \<noteq> []
   \<and> (\<exists>all_downloaded pool' ev.
         process_files pool2 False example_batch = (Returns all_downloaded, pool', ev)
         \<and> length (available pool') = length (available pool2)
         \<and> length (filter is_Processing ev) = 3)"
proof -
  have a: "available pool2 \<noteq> []" by (simp add: pool2_available)
  from per_tile_errors_never_abort[OF example_batch_ok a, of False] a
  show ?thesis by (simp only: example_batch_needed) simp
qed

end
